theory Spec2Isabelle
  imports Complex_Main
begin

section \<open>JavaScript values and the platform\<close>

text \<open>
  The values \<^verbatim>\<open>JSON.parse\<close> produces, \<^verbatim>\<open>null\<close> among them. An object is the list of its
  own properties, read with the first binding of a key.
\<close>

datatype json =
    JNull
  | JBool bool
  | JNum real
  | JStr string
  | JArr "json list"
  | JObj "(string \<times> json) list"

text \<open>
  An exception object: its constructor name and its \<^verbatim>\<open>message\<close>. Everything the program
  throws or catches is an object of this kind; \<^verbatim>\<open>Error\<close> is the one it constructs itself.
\<close>

datatype js_error =
    Error (message: string)
  | TypeError (message: string)
  | SyntaxError (message: string)

text \<open>
  What the JavaScript engine supplies and the repository does not define:
  \<^item> \<open>JSON_parse\<close>: \<^verbatim>\<open>JSON.parse\<close> on a text, \<open>Inl\<close> the \<^verbatim>\<open>SyntaxError\<close> it throws;
  \<^item> \<open>ToString_other\<close>: string conversion of a value that is not a string, a boolean or
    null (numbers, arrays, objects), \<open>Inl\<close> the \<^verbatim>\<open>TypeError\<close> it may throw;
  \<^item> \<open>JSON_stringify\<close>: \<^verbatim>\<open>JSON.stringify\<close> on a value built from literals;
  \<^item> \<open>double\<close>: the double that an arithmetic operation returns for the exact result
    (the nearest one, while the result is in the finite range): numbers are IEEE doubles,
    and every product and sum of the program is rounded;
  \<^item> \<open>read_of_nullish\<close>: the \<^verbatim>\<open>TypeError\<close> thrown by reading a property (second argument)
    of \<^verbatim>\<open>null\<close> or \<^verbatim>\<open>undefined\<close> (first argument), whose wording is the engine's.
\<close>

record platform =
  JSON_parse :: "string \<Rightarrow> js_error + json"
  ToString_other :: "json \<Rightarrow> js_error + string"
  JSON_stringify :: "json \<Rightarrow> string"
  double :: "real \<Rightarrow> real"
  read_of_nullish :: "string \<Rightarrow> string \<Rightarrow> js_error"

text \<open>\<^verbatim>\<open>undefined\<close> is \<open>None\<close>. Truthiness as \<^verbatim>\<open>!x\<close>, \<^verbatim>\<open>x || y\<close> and \<^verbatim>\<open>x && y\<close> test it.\<close>

fun truthy :: "json option \<Rightarrow> bool" where
  "truthy None = False"
| "truthy (Some JNull) = False"
| "truthy (Some (JBool b)) = b"
| "truthy (Some (JNum r)) = (r \<noteq> 0)"
| "truthy (Some (JStr s)) = (s \<noteq> [])"
| "truthy (Some (JArr xs)) = True"
| "truthy (Some (JObj kvs)) = True"

text \<open>
  \<open>get v k\<close> is \<^verbatim>\<open>v.k\<close> for a value \<open>v\<close> that is not null and a name \<open>k\<close> that no
  prototype defines (every name this program reads); \<open>at0 v\<close> is \<^verbatim>\<open>v[0]\<close>.
  \<open>opt_get\<close> and \<open>opt_at0\<close> are the optional chains \<^verbatim>\<open>v?.k\<close> and \<^verbatim>\<open>v?.[0]\<close>.
\<close>

fun get :: "json \<Rightarrow> string \<Rightarrow> json option" where
  "get (JObj kvs) k = map_of kvs k"
| "get _ k = None"

fun at0 :: "json \<Rightarrow> json option" where
  "at0 (JArr xs) = (case xs of [] \<Rightarrow> None | x # _ \<Rightarrow> Some x)"
| "at0 (JStr s) = (case s of [] \<Rightarrow> None | c # _ \<Rightarrow> Some (JStr [c]))"
| "at0 (JObj kvs) = map_of kvs ''0''"
| "at0 _ = None"

fun opt_get :: "json option \<Rightarrow> string \<Rightarrow> json option" where
  "opt_get None k = None"
| "opt_get (Some JNull) k = None"
| "opt_get (Some v) k = get v k"

fun opt_at0 :: "json option \<Rightarrow> json option" where
  "opt_at0 None = None"
| "opt_at0 (Some JNull) = None"
| "opt_at0 (Some v) = at0 v"

fun ToString :: "platform \<Rightarrow> json \<Rightarrow> js_error + string" where
  "ToString P (JStr s) = Inr s"
| "ToString P JNull = Inr ''null''"
| "ToString P (JBool b) = Inr (if b then ''true'' else ''false'')"
| "ToString P v = ToString_other P v"

text \<open>Decimal rendering of a non-negative integer, as a template literal renders it.\<close>

fun dec :: "nat \<Rightarrow> string" where
  "dec n = (if n < 10 then [''0123456789'' ! n]
            else dec (n div 10) @ [''0123456789'' ! (n mod 10)])"

section \<open>The network and the effects of a run\<close>

record response =
  status :: nat
  body :: string

definition ok :: "response \<Rightarrow> bool" where
  "ok r = (200 \<le> status r \<and> status r \<le> 299)"

text \<open>One call of \<^verbatim>\<open>fetch\<close> either rejects with an error or resolves to a response.\<close>

datatype fetch_result = Rejects js_error | Resolves response

text \<open>An attempt fails when the call rejects or the response is not ok.\<close>

definition failed :: "fetch_result \<Rightarrow> bool" where
  "failed fr = (case fr of Rejects e \<Rightarrow> True | Resolves response \<Rightarrow> \<not> ok response)"

text \<open>
  What a run does to the outside, in order: a network call (with its URL and its options
  object), a timer wait of so many milliseconds, a line on the console, and the three state
  setters of the component.
\<close>

datatype effect =
    Fetch string json
  | Sleep real
  | ConsoleError string "js_error option"
  | SetError "string option"
  | SetIsLoading bool
  | SetRecipe json

fun is_Fetch :: "effect \<Rightarrow> bool" where
  "is_Fetch (Fetch u p) = True"
| "is_Fetch _ = False"

fun waits :: "effect list \<Rightarrow> real list" where
  "waits [] = []"
| "waits (Sleep d # es) = d # waits es"
| "waits (_ # es) = waits es"

section \<open>fetchWithRetry (src/my-recipe-app/src/chefApp.jsx)\<close>

text \<open>
  The body of the \<^verbatim>\<open>try\<close> block of one iteration: the awaited \<^verbatim>\<open>fetch\<close> and the status
  check. \<open>Inl\<close> is what the block throws, which the \<^verbatim>\<open>catch\<close> of the same iteration receives.
\<close>

definition try_fetch :: "fetch_result \<Rightarrow> js_error + response" where
  "try_fetch fr =
     (case fr of
        Rejects e \<Rightarrow> Inl e
      | Resolves response \<Rightarrow>
          if \<not> ok response then
            (if status response = 400
             then Inl (Error ''Bad Request: Invalid input to the API.'')
             else Inl (Error (''HTTP error! status: '' @ dec (status response))))
          else Inr response)"

text \<open>
  The \<^verbatim>\<open>for\<close> loop from iteration \<open>i\<close> on, with the current \<^verbatim>\<open>lastError\<close>. \<open>net i\<close> is the
  outcome of the network call of iteration \<open>i\<close> and \<open>rnd i\<close> the value of
  \<^verbatim>\<open>Math.random()\<close> there. The result is the effects in order and what the function
  returns (\<open>Inr\<close>) or throws (\<open>Inl\<close>).
\<close>

function fetchWithRetry_from ::
  "platform \<Rightarrow> (nat \<Rightarrow> fetch_result) \<Rightarrow> (nat \<Rightarrow> real) \<Rightarrow> string \<Rightarrow> json \<Rightarrow> nat \<Rightarrow>
   nat \<Rightarrow> js_error option \<Rightarrow> effect list \<times> (js_error + response)" where
  "fetchWithRetry_from P net rnd url options maxRetries i lastError =
     (if i < maxRetries then
        (case try_fetch (net i) of
           Inr response \<Rightarrow> ([Fetch url options], Inr response)
         | Inl error \<Rightarrow>
             (let delay = double P (double P (double P (2 ^ i) * 1000)
                                    + double P (rnd i * 1000));
                  waited = (if i < maxRetries - 1 then [Sleep delay] else []);
                  rest = fetchWithRetry_from P net rnd url options maxRetries (i + 1) (Some error)
              in (Fetch url options # waited @ fst rest, snd rest)))
      else
        ([], case lastError of
               None \<Rightarrow> Inl (read_of_nullish P ''undefined'' ''message'')
             | Some e \<Rightarrow>
                 Inl (Error (''API call failed after '' @ dec maxRetries @ '' attempts: ''
                             @ message e))))"
  by pat_completeness auto
termination
  by (relation "measure (\<lambda>(P, net, rnd, url, options, maxRetries, i, lastError). maxRetries - i)")
     auto

definition fetchWithRetry ::
  "platform \<Rightarrow> (nat \<Rightarrow> fetch_result) \<Rightarrow> (nat \<Rightarrow> real) \<Rightarrow> string \<Rightarrow> json \<Rightarrow> nat \<Rightarrow>
   effect list \<times> (js_error + response)" where
  "fetchWithRetry P net rnd url options maxRetries =
     fetchWithRetry_from P net rnd url options maxRetries 0 None"

section \<open>fetchWithRetry (src/unnamed/part_000)\<close>

text \<open>
  The message built for a response that is not ok. \<^verbatim>\<open>response.text()\<close> is the body. The
  inner \<^verbatim>\<open>try\<close> parses it and reads \<^verbatim>\<open>errorJson.error.message\<close>; its \<^verbatim>\<open>catch\<close> receives a
  failed parse, the read of \<^verbatim>\<open>error\<close> on \<^verbatim>\<open>null\<close> and a failed string conversion alike, and
  falls back to the text.
\<close>

definition http_error_message :: "platform \<Rightarrow> response \<Rightarrow> string" where
  "http_error_message P response =
     (let errorText = body response;
          generic = ''HTTP error! status: '' @ dec (status response);
          fallback = (if errorText \<noteq> []
                      then ''API Error: '' @ errorText @ '' ('' @ dec (status response) @ '')''
                      else generic)
      in case JSON_parse P errorText of
           Inl e \<Rightarrow> fallback
         | Inr JNull \<Rightarrow> fallback
         | Inr errorJson \<Rightarrow>
             (if truthy (get errorJson ''error'')
                 \<and> truthy (opt_get (get errorJson ''error'') ''message'')
              then (case opt_get (get errorJson ''error'') ''message'' of
                      None \<Rightarrow> generic
                    | Some m \<Rightarrow>
                        (case ToString P m of
                           Inl e \<Rightarrow> fallback
                         | Inr text \<Rightarrow>
                             ''API Error: '' @ text @ '' ('' @ dec (status response) @ '')''))
              else generic))"

definition try_fetch_p0 :: "platform \<Rightarrow> fetch_result \<Rightarrow> js_error + response" where
  "try_fetch_p0 P fr =
     (case fr of
        Rejects e \<Rightarrow> Inl e
      | Resolves response \<Rightarrow>
          if \<not> ok response then Inl (Error (http_error_message P response))
          else Inr response)"

text \<open>What the \<^verbatim>\<open>try\<close> block of iteration \<open>i\<close> throws, if it throws.\<close>

definition attempt_error_p0 :: "platform \<Rightarrow> (nat \<Rightarrow> fetch_result) \<Rightarrow> nat \<Rightarrow> js_error option" where
  "attempt_error_p0 P net i =
     (case try_fetch_p0 P (net i) of Inl error \<Rightarrow> Some error | Inr response \<Rightarrow> None)"

text \<open>
  The loop of this variant logs every failure, waits without jitter and, once the
  attempts are used up, throws \<^verbatim>\<open>lastError\<close> itself, which is \<^verbatim>\<open>undefined\<close> (\<open>None\<close>) when
  no iteration ran.
\<close>

function fetchWithRetry_p0_from ::
  "platform \<Rightarrow> (nat \<Rightarrow> fetch_result) \<Rightarrow> string \<Rightarrow> json \<Rightarrow> nat \<Rightarrow>
   nat \<Rightarrow> js_error option \<Rightarrow> effect list \<times> (js_error option + response)" where
  "fetchWithRetry_p0_from P net url options maxRetries i lastError =
     (if i < maxRetries then
        (case try_fetch_p0 P (net i) of
           Inr response \<Rightarrow> ([Fetch url options], Inr response)
         | Inl error \<Rightarrow>
             (let logged = ConsoleError (''Attempt '' @ dec (i + 1) @ '' failed:'') (Some error);
                  waited = (if i < maxRetries - 1
                            then [Sleep (double P (double P (2 ^ i) * 1000))] else []);
                  rest = fetchWithRetry_p0_from P net url options maxRetries (i + 1) (Some error)
              in (Fetch url options # logged # waited @ fst rest, snd rest)))
      else ([], Inl lastError))"
  by pat_completeness auto
termination
  by (relation "measure (\<lambda>(P, net, url, options, maxRetries, i, lastError). maxRetries - i)")
     auto

definition fetchWithRetry_p0 ::
  "platform \<Rightarrow> (nat \<Rightarrow> fetch_result) \<Rightarrow> string \<Rightarrow> json \<Rightarrow> nat \<Rightarrow>
   effect list \<times> (js_error option + response)" where
  "fetchWithRetry_p0 P net url options maxRetries =
     fetchWithRetry_p0_from P net url options maxRetries 0 None"

section \<open>The component state and the request\<close>

record answers =
  ingredients :: string
  diet :: string
  fatType :: string
  allergies :: string
  specialRequest :: string

text \<open>
  The three state slots of \<^verbatim>\<open>App\<close> besides the answers: \<^verbatim>\<open>recipe\<close> holds \<^verbatim>\<open>null\<close> (\<open>JNull\<close>) or
  the parsed recipe, \<^verbatim>\<open>error\<close> holds \<^verbatim>\<open>null\<close> (\<open>None\<close>) or a message.
\<close>

record app =
  answers :: answers
  recipe :: json
  isLoading :: bool
  error :: "string option"

definition initial :: app where
  "initial = \<lparr> answers = \<lparr> ingredients = [], diet = ''veg'', fatType = ''oil'',
                              allergies = [], specialRequest = [] \<rparr>,
               recipe = JNull, isLoading = False, error = None \<rparr>"

fun apply_effect :: "app \<Rightarrow> effect \<Rightarrow> app" where
  "apply_effect s (SetError e) = s\<lparr>error := e\<rparr>"
| "apply_effect s (SetIsLoading b) = s\<lparr>isLoading := b\<rparr>"
| "apply_effect s (SetRecipe r) = s\<lparr>recipe := r\<rparr>"
| "apply_effect s _ = s"

fun is_setter :: "effect \<Rightarrow> bool" where
  "is_setter (SetError e) = True"
| "is_setter (SetIsLoading b) = True"
| "is_setter (SetRecipe r) = True"
| "is_setter _ = False"

definition after :: "app \<Rightarrow> effect list \<Rightarrow> app" where
  "after s es = foldl apply_effect s es"

text \<open>\<^verbatim>\<open>x || d\<close> on a string \<open>x\<close>: the empty string is the only falsy one.\<close>

definition or_default :: "string \<Rightarrow> string \<Rightarrow> string" where
  "or_default x d = (if x \<noteq> [] then x else d)"

definition userQuery :: "answers \<Rightarrow> string" where
  "userQuery a =
     ''Generate a single, unique food recipe based on the following strict criteria:''
     @ [CHR 0x0A] @ ''- Main Ingredients: ''
     @ or_default (ingredients a) ''I have no specific ingredients, be creative.''
     @ [CHR 0x0A] @ ''- Dietary Type: ''
     @ (if diet a = ''veg'' then ''Strictly Vegetarian'' else ''Non-Vegetarian'')
     @ [CHR 0x0A] @ ''- Cooking Fat: Use '' @ fatType a @ '' exclusively.''
     @ [CHR 0x0A] @ ''- Allergies to Avoid: '' @ or_default (allergies a) ''None, ensure safety.''
     @ [CHR 0x0A] @ ''- Special Request/Style: ''
     @ or_default (specialRequest a) ''Make it simple and delicious.''
     @ [CHR 0x0A] @ ''The entire response MUST be a single JSON object conforming to the provided schema. DO NOT include any text outside the JSON structure.''"

definition recipeSchema :: json where
  "recipeSchema = JObj [
     (''type'', JStr ''OBJECT''),
     (''properties'', JObj [
        (''recipeName'', JObj [(''type'', JStr ''STRING''),
           (''description'', JStr ''A creative and appetizing name for the dish.'')]),
        (''description'', JObj [(''type'', JStr ''STRING''),
           (''description'', JStr ''A brief, appealing description of the final dish.'')]),
        (''ingredients'', JObj [(''type'', JStr ''ARRAY''),
           (''items'', JObj [(''type'', JStr ''STRING'')]),
           (''description'', JStr ''A list of all ingredients with specific quantities.'')]),
        (''instructions'', JObj [(''type'', JStr ''ARRAY''),
           (''items'', JObj [(''type'', JStr ''STRING'')]),
           (''description'', JStr ''Step-by-step instructions for preparing the dish.'')]),
        (''prepTimeMinutes'', JObj [(''type'', JStr ''INTEGER''),
           (''description'', JStr ''The estimated total time (prep + cook) in minutes.'')])]),
     (''required'', JArr [JStr ''recipeName'', JStr ''ingredients'', JStr ''instructions'',
                          JStr ''prepTimeMinutes''])]"

definition payload :: "answers \<Rightarrow> json" where
  "payload a = JObj [
     (''contents'', JArr [JObj [(''parts'', JArr [JObj [(''text'', JStr (userQuery a))]])]]),
     (''generationConfig'', JObj [
        (''responseMimeType'', JStr ''application/json''),
        (''responseSchema'', recipeSchema),
        (''temperature'', JNum (7 / 10))]),
     (''systemInstruction'', JObj [(''parts'', JArr [JObj [(''text'',
        JStr ''You are an expert, world-class chef AI. Your sole purpose is to create novel, detailed, and delicious recipes that strictly adhere to all user criteria and restrictions. Output only the requested JSON object.'')]])])]"

definition request_options :: "platform \<Rightarrow> answers \<Rightarrow> json" where
  "request_options P a = JObj [
     (''method'', JStr ''POST''),
     (''headers'', JObj [(''Content-Type'', JStr ''application/json'')]),
     (''body'', JStr (JSON_stringify P (payload a)))]"

section \<open>generateRecipe: reading the response\<close>

text \<open>\<^verbatim>\<open>result.candidates?.[0]?.content?.parts?.[0]?.text\<close>, for a \<open>result\<close> that is not null.\<close>

definition text_path :: "json \<Rightarrow> json option" where
  "text_path result =
     opt_get (opt_at0 (opt_get (opt_get (opt_at0 (get result ''candidates'')) ''content'')
                               ''parts''))
             ''text''"

text \<open>\<^verbatim>\<open>x || d\<close> on a value that may be \<^verbatim>\<open>undefined\<close>.\<close>

fun js_or :: "json option \<Rightarrow> json \<Rightarrow> json" where
  "js_or None d = d"
| "js_or (Some v) d = (if truthy (Some v) then v else d)"

text \<open>
  The guard on the envelope: \<open>Inr\<close> the generated text (a truthy value) or \<open>Inl\<close> what is
  thrown. \<^verbatim>\<open>new Error(errorMessage)\<close> converts its argument to a string.
\<close>

definition extract_text :: "platform \<Rightarrow> json \<Rightarrow> js_error + json" where
  "extract_text P result =
     (case result of
        JNull \<Rightarrow> Inl (read_of_nullish P ''null'' ''candidates'')
      | _ \<Rightarrow>
        (case text_path result of
           Some text \<Rightarrow>
             if truthy (Some text) then Inr text
             else (case ToString P (js_or (opt_get (get result ''error'') ''message'')
                      (JStr ''Received an empty or malformed response from the AI.'')) of
                     Inl e \<Rightarrow> Inl e
                   | Inr errorMessage \<Rightarrow> Inl (Error errorMessage))
         | None \<Rightarrow>
             (case ToString P (js_or (opt_get (get result ''error'') ''message'')
                      (JStr ''Received an empty or malformed response from the AI.'')) of
                Inl e \<Rightarrow> Inl e
              | Inr errorMessage \<Rightarrow> Inl (Error errorMessage))))"

fun isArray :: "json option \<Rightarrow> bool" where
  "isArray (Some (JArr xs)) = True"
| "isArray _ = False"

text \<open>The guard on the parsed recipe: \<open>Inr\<close> the value handed to \<^verbatim>\<open>setRecipe\<close>.\<close>

definition check_recipe :: "platform \<Rightarrow> json \<Rightarrow> js_error + json" where
  "check_recipe P parsedRecipe =
     (case parsedRecipe of
        JNull \<Rightarrow> Inl (read_of_nullish P ''null'' ''recipeName'')
      | _ \<Rightarrow>
        if \<not> truthy (get parsedRecipe ''recipeName'')
           \<or> \<not> isArray (get parsedRecipe ''ingredients'')
        then Inl (Error ''Generated JSON is missing core recipe fields.'')
        else Inr parsedRecipe)"

text \<open>
  The condition of the specification (section 3) on \<^verbatim>\<open>ingredients\<close> and \<^verbatim>\<open>instructions\<close>:
  present, and a non-empty sequence of strings.
\<close>

fun is_string :: "json \<Rightarrow> bool" where
  "is_string (JStr s) = True"
| "is_string _ = False"

fun string_sequence :: "json option \<Rightarrow> bool" where
  "string_sequence (Some (JArr xs)) = (xs \<noteq> [] \<and> list_all is_string xs)"
| "string_sequence _ = False"

text \<open>
  The \<^verbatim>\<open>try\<close> block after the transport has returned: \<^verbatim>\<open>response.json()\<close>, the guard on the
  envelope, \<^verbatim>\<open>JSON.parse\<close> of the text (converted to a string first) and the guard on the
  recipe.
\<close>

definition handle_response :: "platform \<Rightarrow> response \<Rightarrow> js_error + json" where
  "handle_response P response =
     (case JSON_parse P (body response) of
        Inl e \<Rightarrow> Inl e
      | Inr result \<Rightarrow>
        (case extract_text P result of
           Inl e \<Rightarrow> Inl e
         | Inr text \<Rightarrow>
           (case ToString P text of
              Inl e \<Rightarrow> Inl e
            | Inr jsonString \<Rightarrow>
              (case JSON_parse P jsonString of
                 Inl e \<Rightarrow> Inl e
               | Inr parsedRecipe \<Rightarrow> check_recipe P parsedRecipe))))"

section \<open>generateRecipe\<close>

definition generateRecipe_start :: "effect list" where
  "generateRecipe_start = [SetError None, SetIsLoading True, SetRecipe JNull]"

text \<open>
  What follows the transport: \<open>Inl\<close> is the value the \<^verbatim>\<open>try\<close> block threw (\<open>None\<close> is
  \<^verbatim>\<open>undefined\<close>, whose \<^verbatim>\<open>message\<close> cannot be read, so that the \<^verbatim>\<open>catch\<close> block itself throws after
  logging); \<^verbatim>\<open>finally\<close> runs in every case.
\<close>

definition outcome_of :: "platform \<Rightarrow> js_error option + response \<Rightarrow> js_error option + json" where
  "outcome_of P sent =
     (case sent of
        Inl thrown \<Rightarrow> Inl thrown
      | Inr response \<Rightarrow>
        (case handle_response P response of
           Inl e \<Rightarrow> Inl (Some e)
         | Inr parsedRecipe \<Rightarrow> Inr parsedRecipe))"

definition generateRecipe_finish :: "js_error option + json \<Rightarrow> effect list" where
  "generateRecipe_finish outcome =
     (case outcome of
        Inr parsedRecipe \<Rightarrow> [SetRecipe parsedRecipe]
      | Inl (Some err) \<Rightarrow>
          [ConsoleError ''Recipe generation failed:'' (Some err),
           SetError (Some (''Failed to generate recipe: '' @ message err
                           @ ''. Please refine your input and try again.''))]
      | Inl None \<Rightarrow> [ConsoleError ''Recipe generation failed:'' None])
     @ [SetIsLoading False]"

text \<open>
  The \<^verbatim>\<open>try\<close> block of \<^verbatim>\<open>generateRecipe\<close> in the two files: the effects of the transport and
  what the block hands to \<^verbatim>\<open>setRecipe\<close> (\<open>Inr\<close>) or throws (\<open>Inl\<close>). The transport is called
  without a third argument, so \<^verbatim>\<open>maxRetries\<close> is its default, 5 or 3.
\<close>

definition try_block ::
  "platform \<Rightarrow> (nat \<Rightarrow> fetch_result) \<Rightarrow> (nat \<Rightarrow> real) \<Rightarrow> string \<Rightarrow> app \<Rightarrow>
   effect list \<times> (js_error option + json)" where
  "try_block P net rnd url s =
     (let sent = fetchWithRetry P net rnd url (request_options P (answers s)) 5
      in (fst sent,
          outcome_of P (case snd sent of Inl e \<Rightarrow> Inl (Some e) | Inr response \<Rightarrow> Inr response)))"

definition try_block_p0 ::
  "platform \<Rightarrow> (nat \<Rightarrow> fetch_result) \<Rightarrow> string \<Rightarrow> app \<Rightarrow>
   effect list \<times> (js_error option + json)" where
  "try_block_p0 P net url s =
     (let sent = fetchWithRetry_p0 P net url (request_options P (answers s)) 3
      in (fst sent, outcome_of P (snd sent)))"

text \<open>One whole call, run to its end: the effects in order.\<close>

definition generateRecipe ::
  "platform \<Rightarrow> (nat \<Rightarrow> fetch_result) \<Rightarrow> (nat \<Rightarrow> real) \<Rightarrow> string \<Rightarrow> app \<Rightarrow> effect list" where
  "generateRecipe P net rnd url s =
     generateRecipe_start @ fst (try_block P net rnd url s)
     @ generateRecipe_finish (snd (try_block P net rnd url s))"

definition generateRecipe_p0 ::
  "platform \<Rightarrow> (nat \<Rightarrow> fetch_result) \<Rightarrow> string \<Rightarrow> app \<Rightarrow> effect list" where
  "generateRecipe_p0 P net url s =
     generateRecipe_start @ fst (try_block_p0 P net url s)
     @ generateRecipe_finish (snd (try_block_p0 P net url s))"

section \<open>The component as an event system\<close>

text \<open>
  A call of \<^verbatim>\<open>generateRecipe\<close> is suspended while its transport runs, and the component
  handles other events meanwhile. \<open>in_flight\<close> counts the calls that have started and not
  yet finished. \<open>Settle sent\<close> is the event that the transport of one of them has returned
  or thrown \<open>sent\<close>.
\<close>

record controller =
  view :: app
  in_flight :: nat

datatype ui_event = Change string string | Submit | Settle "js_error option + response"

definition handleChange :: "answers \<Rightarrow> string \<Rightarrow> string \<Rightarrow> answers" where
  "handleChange prev name val =
     (if name = ''ingredients'' then prev\<lparr>ingredients := val\<rparr>
      else if name = ''diet'' then prev\<lparr>diet := val\<rparr>
      else if name = ''fatType'' then prev\<lparr>fatType := val\<rparr>
      else if name = ''allergies'' then prev\<lparr>allergies := val\<rparr>
      else if name = ''specialRequest'' then prev\<lparr>specialRequest := val\<rparr>
      else prev)"

text \<open>Calling \<^verbatim>\<open>generateRecipe()\<close>: the three setters run and the transport starts.\<close>

definition generateRecipe_call :: "controller \<Rightarrow> controller" where
  "generateRecipe_call c =
     \<lparr> view = after (view c) generateRecipe_start, in_flight = in_flight c + 1 \<rparr>"

definition generateRecipe_return ::
  "platform \<Rightarrow> controller \<Rightarrow> js_error option + response \<Rightarrow> controller" where
  "generateRecipe_return P c sent =
     (if in_flight c = 0 then c
      else \<lparr> view = after (view c) (generateRecipe_finish (outcome_of P sent)),
             in_flight = in_flight c - 1 \<rparr>)"

text \<open>
  The form: its \<^verbatim>\<open>onSubmit\<close> calls \<^verbatim>\<open>generateRecipe()\<close>, and its only submit button is
  rendered with \<^verbatim>\<open>disabled={isLoading}\<close>, so a submit event reaches the form only while
  \<^verbatim>\<open>isLoading\<close> is false.
\<close>

fun ui_step :: "platform \<Rightarrow> controller \<Rightarrow> ui_event \<Rightarrow> controller" where
  "ui_step P c (Change name val) =
     c\<lparr>view := (view c)\<lparr>answers := handleChange (answers (view c)) name val\<rparr>\<rparr>"
| "ui_step P c Submit = (if isLoading (view c) then c else generateRecipe_call c)"
| "ui_step P c (Settle sent) = generateRecipe_return P c sent"

definition mounted :: controller where
  "mounted = \<lparr> view = initial, in_flight = 0 \<rparr>"

text \<open>
  The request state of the specification (section 3) and the variant a triple of slots
  stands for, if it stands for one.
\<close>

datatype RequestState = Idle | Loading | Success json | Failure string

definition request_state :: "app \<Rightarrow> RequestState option" where
  "request_state s =
     (if isLoading s then (if recipe s = JNull \<and> error s = None then Some Loading else None)
      else (case error s of
              None \<Rightarrow> if recipe s = JNull then Some Idle else Some (Success (recipe s))
            | Some e \<Rightarrow> if recipe s = JNull then Some (Failure e) else None))"

text \<open>
  What holds of the component between events: a call is in flight exactly while
  \<^verbatim>\<open>isLoading\<close> is set, both slots are empty then, and never both filled.
\<close>

definition consistent :: "controller \<Rightarrow> bool" where
  "consistent c =
     (in_flight c = (if isLoading (view c) then 1 else 0)
      \<and> (isLoading (view c) \<longrightarrow> recipe (view c) = JNull \<and> error (view c) = None)
      \<and> (recipe (view c) = JNull \<or> error (view c) = None))"

section \<open>A platform for the examples\<close>

text \<open>
  A stand-in engine on which the model is run at sample inputs: its parser knows the
  sample texts below and reports every other text as a syntax error, its messages are
  worded as V8 words them, and its arithmetic is exact (the sample delays are doubles).
\<close>

definition quoted :: "string \<Rightarrow> string" where
  "quoted s = [CHR 0x22] @ s @ [CHR 0x22]"

definition sample_error_body :: string where
  "sample_error_body =
     ''{'' @ quoted ''error'' @ '':{'' @ quoted ''message'' @ '':'' @ quoted ''Quota exceeded''
     @ ''}}''"

text \<open>
  A recipe as the provider sends it, and the envelope that carries it as a JSON string
  (its quotes escaped).
\<close>

definition escaped :: "string \<Rightarrow> string" where
  "escaped s = concat (map (\<lambda>c. if c = CHR 0x22 then [CHR 0x5C, CHR 0x22] else [c]) s)"

definition sample_recipe_text :: string where
  "sample_recipe_text =
     ''{'' @ quoted ''recipeName'' @ '':'' @ quoted ''Soup'' @ '','' @ quoted ''ingredients''
     @ '':[],'' @ quoted ''instructions'' @ '':['' @ quoted ''Boil.'' @ '']}''"

definition sample_recipe :: json where
  "sample_recipe = JObj [(''recipeName'', JStr ''Soup''), (''ingredients'', JArr []),
                          (''instructions'', JArr [JStr ''Boil.''])]"

definition sample_envelope_body :: string where
  "sample_envelope_body =
     ''{'' @ quoted ''candidates'' @ '':[{'' @ quoted ''content'' @ '':{'' @ quoted ''parts''
     @ '':[{'' @ quoted ''text'' @ '':'' @ quoted (escaped sample_recipe_text) @ ''}]}}]}''"

definition engine :: platform where
  "engine = \<lparr>
     JSON_parse = (\<lambda>text.
       if text = ''{}'' then Inr (JObj [])
       else if text = ''null'' then Inr JNull
       else if text = sample_error_body
         then Inr (JObj [(''error'', JObj [(''message'', JStr ''Quota exceeded'')])])
       else if text = sample_recipe_text then Inr sample_recipe
       else if text = sample_envelope_body
         then Inr (JObj [(''candidates'', JArr [JObj [(''content'', JObj [(''parts'',
                 JArr [JObj [(''text'', JStr sample_recipe_text)]])])]])])
       else Inl (SyntaxError ''Unexpected end of JSON input'')),
     ToString_other = (\<lambda>v. Inr ''[object Object]''),
     JSON_stringify = (\<lambda>v. ''{}''),
     double = (\<lambda>x. x),
     read_of_nullish = (\<lambda>base name.
       TypeError (''Cannot read properties of '' @ base @ '' (reading '' @ name @ '')'')) \<rparr>"

section \<open>Lemmas on the two retry loops\<close>

declare fetchWithRetry_from.simps [simp del]
declare fetchWithRetry_p0_from.simps [simp del]
declare dec.simps [simp del]

lemmas sample_texts =
  engine_def sample_error_body_def sample_recipe_text_def sample_envelope_body_def
  quoted_def escaped_def

lemma engine_double [simp]: "double engine x = x"
  by (simp add: engine_def)

subsection \<open>The loop of chefApp.jsx, one iteration at a time\<close>

lemma from_done:
  "\<not> i < m \<Longrightarrow> fetchWithRetry_from P net rnd u opts m i le =
     ([], case le of None \<Rightarrow> Inl (read_of_nullish P ''undefined'' ''message'')
          | Some e \<Rightarrow> Inl (Error (''API call failed after '' @ dec m @ '' attempts: ''
                                   @ message e)))"
  by (subst fetchWithRetry_from.simps) simp

lemma from_ok:
  "i < m \<Longrightarrow> try_fetch (net i) = Inr r \<Longrightarrow>
   fetchWithRetry_from P net rnd u opts m i le = ([Fetch u opts], Inr r)"
  by (subst fetchWithRetry_from.simps) simp

lemma from_fail:
  "i < m \<Longrightarrow> try_fetch (net i) = Inl e \<Longrightarrow>
   fetchWithRetry_from P net rnd u opts m i le =
     (Fetch u opts # (if i < m - 1 then [Sleep (double P (double P (double P (2 ^ i) * 1000) + double P (rnd i * 1000)))] else [])
        @ fst (fetchWithRetry_from P net rnd u opts m (Suc i) (Some e)),
      snd (fetchWithRetry_from P net rnd u opts m (Suc i) (Some e)))"
  by (subst fetchWithRetry_from.simps) (simp add: Let_def)

lemma from_starts_with_call:
  "i < m \<Longrightarrow> \<exists>rest. fst (fetchWithRetry_from P net rnd u opts m i le) = Fetch u opts # rest"
  by (cases "try_fetch (net i)") (simp_all add: from_fail from_ok)

lemma from_allfail_calls:
  "\<forall>j. i \<le> j \<and> j < m \<longrightarrow> (\<exists>e. try_fetch (net j) = Inl e) \<Longrightarrow>
   length (filter is_Fetch (fst (fetchWithRetry_from P net rnd u opts m i le))) = m - i"
proof (induction "m - i" arbitrary: i le)
  case 0
  then show ?case by (simp add: from_done)
next
  case (Suc k)
  then have lt: "i < m" by simp
  with Suc.prems obtain e where e: "try_fetch (net i) = Inl e" by auto
  have "k = m - Suc i" using Suc.hyps(2) by simp
  moreover have "\<forall>j. Suc i \<le> j \<and> j < m \<longrightarrow> (\<exists>e. try_fetch (net j) = Inl e)"
    using Suc.prems by auto
  ultimately have "length (filter is_Fetch
      (fst (fetchWithRetry_from P net rnd u opts m (Suc i) (Some e)))) = m - Suc i"
    using Suc.hyps(1) by blast
  then show ?case using lt by (simp add: from_fail [of i m net e, OF lt e])
qed

lemma from_allfail_result:
  "i < m \<Longrightarrow> \<forall>j. i \<le> j \<and> j < m \<longrightarrow> (\<exists>e. try_fetch (net j) = Inl e) \<Longrightarrow>
   \<exists>e. try_fetch (net (m - 1)) = Inl e \<and>
       snd (fetchWithRetry_from P net rnd u opts m i le) =
         Inl (Error (''API call failed after '' @ dec m @ '' attempts: '' @ message e))"
proof (induction "m - i" arbitrary: i le)
  case 0
  then show ?case by simp
next
  case (Suc k)
  then have lt: "i < m" by simp
  with Suc.prems obtain e where e: "try_fetch (net i) = Inl e" by auto
  show ?case
  proof (cases "Suc i < m")
    case True
    have "k = m - Suc i" using Suc.hyps(2) by simp
    moreover have "\<forall>j. Suc i \<le> j \<and> j < m \<longrightarrow> (\<exists>e. try_fetch (net j) = Inl e)"
      using Suc.prems by auto
    ultimately show ?thesis using Suc.hyps(1) [of "Suc i" "Some e"] True
      by (simp add: from_fail [of i m net e, OF lt e])
  next
    case False
    then have m1: "m - 1 = i" using lt by simp
    have "snd (fetchWithRetry_from P net rnd u opts m i le) =
      Inl (Error (''API call failed after '' @ dec m @ '' attempts: '' @ message e))"
      using False by (simp add: from_fail [of i m net e, OF lt e] from_done)
    then show ?thesis using e unfolding m1 by blast
  qed
qed

text \<open>The shape of every trace: calls separated by waits, ending in a call.\<close>

lemma from_shape:
  "i < m \<Longrightarrow>
   \<exists>k. i \<le> k \<and> k < m
     \<and> fst (fetchWithRetry_from P net rnd u opts m i le) =
         concat (map (\<lambda>j. [Fetch u opts, Sleep (double P (double P (double P (2 ^ j) * 1000) + double P (rnd j * 1000)))]) [i..<k])
         @ [Fetch u opts]
     \<and> (k = m - 1 \<or> (\<exists>r. try_fetch (net k) = Inr r))"
proof (induction "m - i" arbitrary: i le)
  case 0
  then show ?case by simp
next
  case (Suc n)
  then have lt: "i < m" by simp
  show ?case
  proof (cases "try_fetch (net i)")
    case (Inr r)
    then have "fst (fetchWithRetry_from P net rnd u opts m i le) = [Fetch u opts]"
      using lt by (simp add: from_ok)
    then show ?thesis using lt Inr by (intro exI [of _ i]) simp
  next
    case (Inl e)
    show ?thesis
    proof (cases "Suc i < m")
      case True
      have "n = m - Suc i" using Suc.hyps(2) by simp
      from Suc.hyps(1) [OF this True, of "Some e"]
      obtain k where k: "Suc i \<le> k" "k < m"
        "fst (fetchWithRetry_from P net rnd u opts m (Suc i) (Some e)) =
           concat (map (\<lambda>j. [Fetch u opts, Sleep (double P (double P (double P (2 ^ j) * 1000) + double P (rnd j * 1000)))]) [Suc i..<k])
           @ [Fetch u opts]"
        "k = m - 1 \<or> (\<exists>r. try_fetch (net k) = Inr r)"
        by blast
      have upt: "[i..<k] = i # [Suc i..<k]" using k(1) by (simp add: upt_conv_Cons)
      have "fst (fetchWithRetry_from P net rnd u opts m i le) =
           concat (map (\<lambda>j. [Fetch u opts, Sleep (double P (double P (double P (2 ^ j) * 1000) + double P (rnd j * 1000)))]) [i..<k])
           @ [Fetch u opts]"
        using True k(3) by (simp add: from_fail [of i m net e, OF lt Inl] upt)
      then show ?thesis using k by (intro exI [of _ k]) simp
    next
      case False
      then have "fst (fetchWithRetry_from P net rnd u opts m i le) = [Fetch u opts]"
        by (simp add: from_fail [of i m net e, OF lt Inl] from_done)
      moreover have "i = m - 1" using False lt by simp
      ultimately show ?thesis using lt by (intro exI [of _ i]) simp
    qed
  qed
qed

lemma waits_shape:
  "waits (concat (map (\<lambda>j. [Fetch u opts, Sleep (g j)]) js) @ [Fetch u opts]) = map g js"
  by (induction js) simp_all

subsection \<open>The loop of part_000\<close>

lemma p0_done:
  "\<not> i < m \<Longrightarrow> fetchWithRetry_p0_from P net u opts m i le = ([], Inl le)"
  by (subst fetchWithRetry_p0_from.simps) simp

lemma p0_ok:
  "i < m \<Longrightarrow> try_fetch_p0 P (net i) = Inr r \<Longrightarrow>
   fetchWithRetry_p0_from P net u opts m i le = ([Fetch u opts], Inr r)"
  by (subst fetchWithRetry_p0_from.simps) simp

lemma p0_fail:
  "i < m \<Longrightarrow> try_fetch_p0 P (net i) = Inl e \<Longrightarrow>
   fetchWithRetry_p0_from P net u opts m i le =
     (Fetch u opts # ConsoleError (''Attempt '' @ dec (i + 1) @ '' failed:'') (Some e)
        # (if i < m - 1 then [Sleep (double P (double P (2 ^ i) * 1000))] else [])
        @ fst (fetchWithRetry_p0_from P net u opts m (Suc i) (Some e)),
      snd (fetchWithRetry_p0_from P net u opts m (Suc i) (Some e)))"
  by (subst fetchWithRetry_p0_from.simps) (simp add: Let_def)

lemma p0_starts_with_call:
  "i < m \<Longrightarrow> \<exists>rest. fst (fetchWithRetry_p0_from P net u opts m i le) = Fetch u opts # rest"
  by (cases "try_fetch_p0 P (net i)") (simp_all add: p0_fail p0_ok)

lemma p0_allfail_calls:
  "\<forall>j. i \<le> j \<and> j < m \<longrightarrow> (\<exists>e. try_fetch_p0 P (net j) = Inl e) \<Longrightarrow>
   length (filter is_Fetch (fst (fetchWithRetry_p0_from P net u opts m i le))) = m - i"
proof (induction "m - i" arbitrary: i le)
  case 0
  then show ?case by (simp add: p0_done)
next
  case (Suc k)
  then have lt: "i < m" by simp
  with Suc.prems obtain e where e: "try_fetch_p0 P (net i) = Inl e" by auto
  have "k = m - Suc i" using Suc.hyps(2) by simp
  moreover have "\<forall>j. Suc i \<le> j \<and> j < m \<longrightarrow> (\<exists>e. try_fetch_p0 P (net j) = Inl e)"
    using Suc.prems by auto
  ultimately have "length (filter is_Fetch
      (fst (fetchWithRetry_p0_from P net u opts m (Suc i) (Some e)))) = m - Suc i"
    using Suc.hyps(1) by blast
  then show ?case using lt by (simp add: p0_fail [of i m P net e, OF lt e])
qed

lemma p0_allfail_result:
  "i < m \<Longrightarrow> \<forall>j. i \<le> j \<and> j < m \<longrightarrow> (\<exists>e. try_fetch_p0 P (net j) = Inl e) \<Longrightarrow>
   \<exists>e. try_fetch_p0 P (net (m - 1)) = Inl e \<and>
       snd (fetchWithRetry_p0_from P net u opts m i le) = Inl (Some e)"
proof (induction "m - i" arbitrary: i le)
  case 0
  then show ?case by simp
next
  case (Suc k)
  then have lt: "i < m" by simp
  with Suc.prems obtain e where e: "try_fetch_p0 P (net i) = Inl e" by auto
  show ?case
  proof (cases "Suc i < m")
    case True
    have "k = m - Suc i" using Suc.hyps(2) by simp
    moreover have "\<forall>j. Suc i \<le> j \<and> j < m \<longrightarrow> (\<exists>e. try_fetch_p0 P (net j) = Inl e)"
      using Suc.prems by auto
    ultimately show ?thesis using Suc.hyps(1) [of "Suc i" "Some e"] True
      by (simp add: p0_fail [of i m P net e, OF lt e])
  next
    case False
    then have m1: "m - 1 = i" using lt by simp
    have "snd (fetchWithRetry_p0_from P net u opts m i le) = Inl (Some e)"
      using False by (simp add: p0_fail [of i m P net e, OF lt e] p0_done)
    then show ?thesis using e unfolding m1 by blast
  qed
qed

lemma p0_shape:
  "i < m \<Longrightarrow>
   \<exists>k tail. i \<le> k \<and> k < m
     \<and> fst (fetchWithRetry_p0_from P net u opts m i le) =
         concat (map (\<lambda>j. [Fetch u opts,
                            ConsoleError (''Attempt '' @ dec (j + 1) @ '' failed:'')
                              (attempt_error_p0 P net j),
                            Sleep (double P (double P (2 ^ j) * 1000))]) [i..<k])
         @ Fetch u opts # tail
     \<and> (\<forall>e\<in>set tail. \<not> is_Fetch e) \<and> waits tail = []
     \<and> (k = m - 1 \<or> (\<exists>r. try_fetch_p0 P (net k) = Inr r))"
proof (induction "m - i" arbitrary: i le)
  case 0
  then show ?case by simp
next
  case (Suc n)
  then have lt: "i < m" by simp
  let ?f = "\<lambda>j. [Fetch u opts,
                   ConsoleError (''Attempt '' @ dec (j + 1) @ '' failed:'')
                     (attempt_error_p0 P net j),
                   Sleep (double P (double P (2 ^ j) * 1000))]"
  show ?case
  proof (cases "try_fetch_p0 P (net i)")
    case (Inr r)
    then have "fst (fetchWithRetry_p0_from P net u opts m i le) = Fetch u opts # []"
      using lt by (simp add: p0_ok)
    then show ?thesis using lt Inr by (intro exI [of _ i] exI [of _ "[]"]) simp
  next
    case (Inl e)
    then have ae: "attempt_error_p0 P net i = Some e" by (simp add: attempt_error_p0_def)
    show ?thesis
    proof (cases "Suc i < m")
      case True
      have "n = m - Suc i" using Suc.hyps(2) by simp
      from Suc.hyps(1) [OF this True, of "Some e"]
      obtain k tail where k: "Suc i \<le> k" "k < m"
        "fst (fetchWithRetry_p0_from P net u opts m (Suc i) (Some e)) =
           concat (map ?f [Suc i..<k]) @ Fetch u opts # tail"
        "\<forall>e\<in>set tail. \<not> is_Fetch e" "waits tail = []"
        "k = m - 1 \<or> (\<exists>r. try_fetch_p0 P (net k) = Inr r)"
        by auto
      have upt: "[i..<k] = i # [Suc i..<k]" using k(1) by (simp add: upt_conv_Cons)
      have "fst (fetchWithRetry_p0_from P net u opts m i le) =
           concat (map ?f [i..<k]) @ Fetch u opts # tail"
        using True k(3) by (simp add: p0_fail [of i m P net e, OF lt Inl] upt ae)
      then show ?thesis using k by (intro exI [of _ k] exI [of _ tail]) simp
    next
      case False
      then have "fst (fetchWithRetry_p0_from P net u opts m i le) =
          Fetch u opts # [ConsoleError (''Attempt '' @ dec (i + 1) @ '' failed:'') (Some e)]"
        by (simp add: p0_fail [of i m P net e, OF lt Inl] p0_done)
      moreover have "i = m - 1" using False lt by simp
      ultimately show ?thesis using lt
        by (intro exI [of _ i]
              exI [of _ "[ConsoleError (''Attempt '' @ dec (i + 1) @ '' failed:'') (Some e)]"])
           simp
    qed
  qed
qed

lemma waits_shape_p0:
  "waits tail = [] \<Longrightarrow>
   waits (concat (map (\<lambda>j. [Fetch u opts, ConsoleError (c j) (a j), Sleep (g j)]) js)
          @ Fetch u opts # tail) = map g js"
  by (induction js) simp_all

lemma p0_thrown_defined:
  "i < m \<or> le \<noteq> None \<Longrightarrow> snd (fetchWithRetry_p0_from P net u opts m i le) \<noteq> Inl None"
proof (induction "m - i" arbitrary: i le)
  case 0
  then show ?case by (simp add: p0_done)
next
  case (Suc n)
  then have lt: "i < m" by simp
  show ?case
  proof (cases "try_fetch_p0 P (net i)")
    case (Inr r)
    then show ?thesis using lt by (simp add: p0_ok)
  next
    case (Inl e)
    have "n = m - Suc i" using Suc.hyps(2) by simp
    from Suc.hyps(1) [OF this, of "Some e"]
    show ?thesis by (simp add: p0_fail [of i m P net e, OF lt Inl])
  qed
qed

lemma failed_try_fetch: "failed fr \<longleftrightarrow> (\<exists>e. try_fetch fr = Inl e)"
  by (cases fr) (auto simp: failed_def try_fetch_def)

lemma failed_try_fetch_p0: "failed fr \<longleftrightarrow> (\<exists>e. try_fetch_p0 P fr = Inl e)"
  by (cases fr) (auto simp: failed_def try_fetch_p0_def)

section \<open>Lemmas on reading the response\<close>

lemma check_recipe_Inr:
  "check_recipe P p = Inr q \<longleftrightarrow>
     q = p \<and> p \<noteq> JNull \<and> truthy (get p ''recipeName'') \<and> isArray (get p ''ingredients'')"
  by (cases p) (auto simp: check_recipe_def)

lemma outcome_of_Inr:
  "outcome_of P sent = Inr q \<Longrightarrow>
     q \<noteq> JNull \<and> truthy (get q ''recipeName'') \<and> isArray (get q ''ingredients'')"
  by (auto simp: outcome_of_def handle_response_def check_recipe_Inr
           split: sum.splits)

lemma extract_text_absent:
  "\<not> truthy (text_path result) \<Longrightarrow> result \<noteq> JNull \<Longrightarrow>
   extract_text P result =
     (case ToString P (js_or (opt_get (get result ''error'') ''message'')
              (JStr ''Received an empty or malformed response from the AI.'')) of
        Inl e \<Rightarrow> Inl e
      | Inr errorMessage \<Rightarrow> Inl (Error errorMessage))"
  by (cases result; cases "text_path result") (simp_all add: extract_text_def)

lemma js_or_falsy: "\<not> truthy v \<Longrightarrow> js_or v d = d"
  by (cases v) simp_all

lemma parse_sample_envelope:
  "JSON_parse engine sample_envelope_body
     = Inr (JObj [(''candidates'', JArr [JObj [(''content'', JObj [(''parts'',
                 JArr [JObj [(''text'', JStr sample_recipe_text)]])])]])])"
  by (simp add: sample_texts)

lemma parse_sample_recipe: "JSON_parse engine sample_recipe_text = Inr sample_recipe"
  by (simp add: sample_texts)

lemma sample_recipe_text_nonempty: "sample_recipe_text \<noteq> []"
  by (simp add: sample_recipe_text_def)

lemma handle_sample:
  "handle_response engine \<lparr>status = 200, body = sample_envelope_body\<rparr> = Inr sample_recipe"
  by (simp add: handle_response_def parse_sample_envelope parse_sample_recipe extract_text_def
        text_path_def check_recipe_def sample_recipe_def sample_recipe_text_nonempty)

section \<open>Lemmas on a run and on the event system\<close>

lemma after_append: "after s (xs @ ys) = after (after s xs) ys"
  by (simp add: after_def)

lemma after_silent: "\<forall>e\<in>set es. \<not> is_setter e \<Longrightarrow> after s es = s"
proof (induction es arbitrary: s)
  case Nil
  then show ?case by (simp add: after_def)
next
  case (Cons e es)
  then have "apply_effect s e = s" by (cases e) simp_all
  then show ?case using Cons by (simp add: after_def)
qed

lemma from_silent:
  "\<forall>e\<in>set (fst (fetchWithRetry_from P net rnd u opts m i le)). \<not> is_setter e"
proof (induction "m - i" arbitrary: i le)
  case 0
  then show ?case by (simp add: from_done)
next
  case (Suc n)
  then have lt: "i < m" by simp
  show ?case
  proof (cases "try_fetch (net i)")
    case (Inr r)
    then show ?thesis using lt by (simp add: from_ok)
  next
    case (Inl e)
    have "n = m - Suc i" using Suc.hyps(2) by simp
    from Suc.hyps(1) [OF this, of "Some e"]
    show ?thesis by (auto simp: from_fail [of i m net e, OF lt Inl])
  qed
qed

lemma p0_silent:
  "\<forall>e\<in>set (fst (fetchWithRetry_p0_from P net u opts m i le)). \<not> is_setter e"
proof (induction "m - i" arbitrary: i le)
  case 0
  then show ?case by (simp add: p0_done)
next
  case (Suc n)
  then have lt: "i < m" by simp
  show ?case
  proof (cases "try_fetch_p0 P (net i)")
    case (Inr r)
    then show ?thesis using lt by (simp add: p0_ok)
  next
    case (Inl e)
    have "n = m - Suc i" using Suc.hyps(2) by simp
    from Suc.hyps(1) [OF this, of "Some e"]
    show ?thesis by (auto simp: p0_fail [of i m P net e, OF lt Inl])
  qed
qed

lemma try_block_silent: "\<forall>e\<in>set (fst (try_block P net rnd url s)). \<not> is_setter e"
  by (simp add: try_block_def Let_def fetchWithRetry_def from_silent)

lemma try_block_p0_silent: "\<forall>e\<in>set (fst (try_block_p0 P net url s)). \<not> is_setter e"
  by (simp add: try_block_p0_def Let_def fetchWithRetry_p0_def p0_silent)

lemma try_block_thrown: "snd (try_block P net rnd url s) \<noteq> Inl None"
  by (simp add: try_block_def Let_def outcome_of_def split: sum.splits)

lemma try_block_p0_thrown: "snd (try_block_p0 P net url s) \<noteq> Inl None"
proof -
  have "snd (fetchWithRetry_p0 P net url (request_options P (answers s)) 3) \<noteq> Inl None"
    unfolding fetchWithRetry_p0_def by (rule p0_thrown_defined) simp
  then show ?thesis
    by (auto simp: try_block_p0_def Let_def outcome_of_def split: sum.splits)
qed

lemma after_start:
  "after s generateRecipe_start = s\<lparr>error := None, isLoading := True, recipe := JNull\<rparr>"
  by (simp add: after_def generateRecipe_start_def)

lemma finish_no_call: "\<forall>e\<in>set (generateRecipe_finish oc). \<not> is_Fetch e"
  by (simp add: generateRecipe_finish_def split: sum.splits option.splits)

text \<open>A run: the three setters, effects that set nothing, the setters of the end.\<close>

lemma run_at_call:
  assumes "\<forall>e\<in>set fx. \<not> is_setter e"
    and "n < length (generateRecipe_start @ fx @ generateRecipe_finish oc)"
    and "is_Fetch ((generateRecipe_start @ fx @ generateRecipe_finish oc) ! n)"
  shows "after s (take n (generateRecipe_start @ fx @ generateRecipe_finish oc))
           = s\<lparr>error := None, isLoading := True, recipe := JNull\<rparr>"
proof -
  have len: "length generateRecipe_start = 3" by (simp add: generateRecipe_start_def)
  have ge: "3 \<le> n"
  proof (rule ccontr)
    assume "\<not> 3 \<le> n"
    then have "n < 3" by simp
    then have "n = 0 \<or> n = 1 \<or> n = 2" by arith
    then show False using assms(3) by (auto simp: generateRecipe_start_def)
  qed
  have lt: "n - 3 < length fx"
  proof (rule ccontr)
    assume "\<not> n - 3 < length fx"
    then have k: "length fx \<le> n - 3" by simp
    then have "(generateRecipe_start @ fx @ generateRecipe_finish oc) ! n
                 = generateRecipe_finish oc ! (n - 3 - length fx)"
      using ge len by (simp add: nth_append)
    moreover have "n - 3 - length fx < length (generateRecipe_finish oc)"
      using assms(2) ge len k by simp
    ultimately show False using assms(3) finish_no_call [of oc] by (metis nth_mem)
  qed
  have "take n (generateRecipe_start @ fx @ generateRecipe_finish oc)
          = generateRecipe_start @ take (n - 3) fx"
    using ge lt len by simp
  moreover have "\<forall>e\<in>set (take (n - 3) fx). \<not> is_setter e"
    using assms(1) by (meson in_set_takeD)
  ultimately show ?thesis by (simp add: after_append after_silent after_start)
qed

lemma run_failed:
  assumes "\<forall>e\<in>set fx. \<not> is_setter e"
  shows "after s (generateRecipe_start @ fx @ generateRecipe_finish (Inl (Some err)))
           = s\<lparr>error := Some (''Failed to generate recipe: '' @ message err
                              @ ''. Please refine your input and try again.''),
                isLoading := False, recipe := JNull\<rparr>"
  using assms
  by (simp add: after_append after_silent after_start)
     (simp add: after_def generateRecipe_finish_def)

lemma run_succeeded:
  assumes "\<forall>e\<in>set fx. \<not> is_setter e"
  shows "after s (generateRecipe_start @ fx @ generateRecipe_finish (Inr q))
           = s\<lparr>error := None, isLoading := False, recipe := q\<rparr>"
  using assms
  by (simp add: after_append after_silent after_start)
     (simp add: after_def generateRecipe_finish_def)

lemma offline_try_block:
  "snd (try_block engine (\<lambda>i. Rejects (TypeError ''Failed to fetch'')) (\<lambda>i. 0) ''u'' s)
     = Inl (Some (Error ''API call failed after 5 attempts: Failed to fetch''))"
  by (simp add: try_block_def Let_def fetchWithRetry_def fetchWithRetry_from.simps
        try_fetch_def outcome_of_def dec.simps)

lemma consistent_mounted: "consistent mounted"
  by (simp add: consistent_def mounted_def initial_def)

lemma consistent_step: "consistent c \<Longrightarrow> consistent (ui_step P c e)"
proof (cases e)
  case (Change name val)
  assume "consistent c"
  then show ?thesis using Change by (simp add: consistent_def)
next
  case Submit
  assume "consistent c"
  then show ?thesis using Submit
    by (simp add: consistent_def generateRecipe_call_def after_start)
next
  case (Settle sent)
  assume c: "consistent c"
  show ?thesis
  proof (cases "in_flight c = 0")
    case True
    then show ?thesis using c Settle by (simp add: generateRecipe_return_def)
  next
    case False
    then have l: "isLoading (view c)" "recipe (view c) = JNull" "error (view c) = None"
      "in_flight c = 1"
      using c by (auto simp: consistent_def split: if_splits)
    show ?thesis
    proof (cases "outcome_of P sent")
      case (Inr q)
      then show ?thesis using l Settle
        by (simp add: consistent_def generateRecipe_return_def generateRecipe_finish_def
              after_def)
    next
      case (Inl thrown)
      then show ?thesis using l Settle
        by (cases thrown)
           (simp_all add: consistent_def generateRecipe_return_def generateRecipe_finish_def
              after_def)
    qed
  qed
qed

lemma consistent_reachable: "consistent (foldl (ui_step P) mounted es)"
proof (induction es rule: rev_induct)
  case Nil
  then show ?case by (simp add: consistent_mounted)
next
  case (snoc e es)
  then show ?case by (simp add: consistent_step)
qed

lemma consistent_request_state: "consistent c \<Longrightarrow> request_state (view c) \<noteq> None"
  by (auto simp: consistent_def request_state_def split: option.splits if_splits)

section \<open>The transport\<close>

text \<open>
  C1, as the code has it. A response with status 400 is given a message of its own in
  chefApp.jsx, but it is thrown inside the \<^verbatim>\<open>try\<close> block and caught by the \<^verbatim>\<open>catch\<close> of the same
  iteration, like every other failure: when more than one attempt is allowed, the
  transport waits the backoff delay of attempt 0 and calls the network again. In part_000
  the status 400 is not distinguished at all.
\<close>

theorem http_400_is_retried:
  assumes "net 0 = Resolves r" and "status r = 400" and "1 < maxRetries"
  shows "try_fetch (net 0) = Inl (Error ''Bad Request: Invalid input to the API.'')
       \<and> (\<exists>rest. fst (fetchWithRetry P net rnd url options maxRetries) =
            Fetch url options # Sleep (double P (double P (double P (2 ^ 0) * 1000) + double P (rnd 0 * 1000))) # Fetch url options # rest)
       \<and> (\<exists>e rest. fst (fetchWithRetry_p0 P net url options maxRetries) =
            Fetch url options # ConsoleError ''Attempt 1 failed:'' (Some e)
              # Sleep (double P (double P (2 ^ 0) * 1000)) # Fetch url options # rest)"
proof -
  have nok: "\<not> ok r" using assms(2) by (simp add: ok_def)
  have a: "try_fetch (net 0) = Inl (Error ''Bad Request: Invalid input to the API.'')"
    using assms(1,2) nok by (simp add: try_fetch_def)
  have b: "try_fetch_p0 P (net 0) = Inl (Error (http_error_message P r))"
    using assms(1) nok by (simp add: try_fetch_p0_def)
  have lt0: "0 < maxRetries" and lt1: "Suc 0 < maxRetries" using assms(3) by simp_all
  obtain rest where rest:
    "fst (fetchWithRetry_from P net rnd url options maxRetries (Suc 0)
           (Some (Error ''Bad Request: Invalid input to the API.''))) = Fetch url options # rest"
    using from_starts_with_call [OF lt1] by blast
  obtain rest0 where rest0:
    "fst (fetchWithRetry_p0_from P net url options maxRetries (Suc 0)
           (Some (Error (http_error_message P r)))) = Fetch url options # rest0"
    using p0_starts_with_call [OF lt1] by blast
  have "fst (fetchWithRetry P net rnd url options maxRetries) =
          Fetch url options # Sleep (double P (double P (double P (2 ^ 0) * 1000) + double P (rnd 0 * 1000))) # Fetch url options # rest"
    unfolding fetchWithRetry_def using from_fail [of 0 maxRetries net _ P rnd url options None, OF lt0 a] rest assms(3)
    by simp
  moreover have "fst (fetchWithRetry_p0 P net url options maxRetries) =
          Fetch url options # ConsoleError ''Attempt 1 failed:'' (Some (Error (http_error_message P r)))
            # Sleep (double P (double P (2 ^ 0) * 1000)) # Fetch url options # rest0"
    unfolding fetchWithRetry_p0_def using p0_fail [of 0 maxRetries P net _ url options None, OF lt0 b] rest0 assms(3)
    by (simp add: dec.simps)
  ultimately show ?thesis using a by blast
qed

theorem http_400_is_retried_witness:
  "status \<lparr>status = 400, body = []\<rparr> = 400 \<and> (1::nat) < 5
   \<and> (\<exists>rest. fst (fetchWithRetry engine (\<lambda>i. Resolves \<lparr>status = 400, body = []\<rparr>) (\<lambda>i. 0)
                ''u'' JNull 5) =
        Fetch ''u'' JNull # Sleep 1000 # Fetch ''u'' JNull # rest)"
  using http_400_is_retried [of "\<lambda>i. Resolves \<lparr>status = 400, body = []\<rparr>"
      "\<lparr>status = 400, body = []\<rparr>" 5 engine "\<lambda>i. 0" "''u''" JNull]
  by simp

text \<open>
  The claim as the specification words it (one call, no wait) fails: with every attempt
  answered by status 400, the defaults give five calls and four waits in chefApp.jsx, three
  calls and two waits in part_000.
\<close>

theorem http_400_counterexample:
  "length (filter is_Fetch (fst (fetchWithRetry engine
      (\<lambda>i. Resolves \<lparr>status = 400, body = []\<rparr>) (\<lambda>i. 0) ''u'' JNull 5))) = 5
   \<and> waits (fst (fetchWithRetry engine
      (\<lambda>i. Resolves \<lparr>status = 400, body = []\<rparr>) (\<lambda>i. 0) ''u'' JNull 5))
       = [1000, 2000, 4000, 8000]
   \<and> length (filter is_Fetch (fst (fetchWithRetry_p0 engine
      (\<lambda>i. Resolves \<lparr>status = 400, body = []\<rparr>) ''u'' JNull 3))) = 3
   \<and> waits (fst (fetchWithRetry_p0 engine
      (\<lambda>i. Resolves \<lparr>status = 400, body = []\<rparr>) ''u'' JNull 3)) = [1000, 2000]"
  by (simp add: fetchWithRetry_def fetchWithRetry_from.simps try_fetch_def ok_def
        fetchWithRetry_p0_def fetchWithRetry_p0_from.simps try_fetch_p0_def)

text \<open>
  C2. When every attempt fails, the transport calls the network exactly \<^verbatim>\<open>maxRetries\<close> times;
  if at least one attempt was allowed, it then throws an error that carries the error of
  the last attempt: chefApp.jsx wraps its message (\<^verbatim>\<open>API call failed after N attempts: ...\<close>),
  part_000 rethrows the error itself.
\<close>

theorem retry_exhausted:
  assumes "\<forall>i<maxRetries. failed (net i)"
  shows "length (filter is_Fetch (fst (fetchWithRetry P net rnd url options maxRetries)))
           = maxRetries
       \<and> length (filter is_Fetch (fst (fetchWithRetry_p0 P net url options maxRetries)))
           = maxRetries
       \<and> (0 < maxRetries \<longrightarrow>
            (\<exists>e. try_fetch (net (maxRetries - 1)) = Inl e
               \<and> snd (fetchWithRetry P net rnd url options maxRetries) =
                   Inl (Error (''API call failed after '' @ dec maxRetries @ '' attempts: ''
                               @ message e))))
       \<and> (0 < maxRetries \<longrightarrow>
            (\<exists>e. try_fetch_p0 P (net (maxRetries - 1)) = Inl e
               \<and> snd (fetchWithRetry_p0 P net url options maxRetries) = Inl (Some e)))"
proof -
  have a: "\<forall>j. 0 \<le> j \<and> j < maxRetries \<longrightarrow> (\<exists>e. try_fetch (net j) = Inl e)"
    using assms by (simp add: failed_try_fetch)
  have b: "\<forall>j. 0 \<le> j \<and> j < maxRetries \<longrightarrow> (\<exists>e. try_fetch_p0 P (net j) = Inl e)"
    using assms failed_try_fetch_p0 [of _ P] by simp
  show ?thesis
    unfolding fetchWithRetry_def fetchWithRetry_p0_def
    using from_allfail_calls [OF a, of P rnd url options None]
      p0_allfail_calls [OF b, of url options None]
      from_allfail_result [OF _ a, of P rnd url options None]
      p0_allfail_result [OF _ b, of url options None]
    by simp
qed

theorem retry_exhausted_witness:
  "failed (Rejects (TypeError ''Failed to fetch''))
   \<and> length (filter is_Fetch (fst (fetchWithRetry engine
        (\<lambda>i. Rejects (TypeError ''Failed to fetch'')) (\<lambda>i. 0) ''u'' JNull 3))) = 3
   \<and> snd (fetchWithRetry engine (\<lambda>i. Rejects (TypeError ''Failed to fetch'')) (\<lambda>i. 0)
        ''u'' JNull 3)
       = Inl (Error ''API call failed after 3 attempts: Failed to fetch'')
   \<and> snd (fetchWithRetry_p0 engine (\<lambda>i. Rejects (TypeError ''Failed to fetch''))
        ''u'' JNull 3)
       = Inl (Some (TypeError ''Failed to fetch''))"
  using retry_exhausted [of 3 "\<lambda>i. Rejects (TypeError ''Failed to fetch'')" engine "\<lambda>i. 0"
      "''u''" JNull]
  by (simp add: failed_def try_fetch_def try_fetch_p0_def dec.simps)

text \<open>
  C5. Every product and sum of the delay is a double, so the bounds are those that
  rounding keeps: it is monotone, and exact on the powers of two and their thousandfolds
  that the run reaches, on 0 and on 1000. With \<^verbatim>\<open>Math.random()\<close> in \<open>[0, 1)\<close>, the wait number
  \<open>j\<close> of a run of chefApp.jsx is at least \<open>2\<^sup>j\<close> seconds and at most the double of
  \<open>2\<^sup>j + 1\<close> seconds, and the lower bounds rise strictly; in part_000 it is \<open>2\<^sup>j\<close>
  seconds. In both files, when the attempts up to \<open>i\<close> fail and attempt \<open>i + 1\<close> is allowed,
  the trace begins with more than \<open>i\<close> rounds of a call followed by its wait, and goes on
  with the next call: wait \<open>i\<close> stands between call \<open>i\<close> and call \<open>i + 1\<close>.
\<close>

theorem backoff_waits:
  assumes mono: "\<forall>x y. x \<le> y \<longrightarrow> double P x \<le> double P y"
    and exact: "\<forall>j<maxRetries. double P (2 ^ j) = 2 ^ j
                  \<and> double P (2 ^ j * 1000) = 2 ^ j * 1000"
    and zero: "double P 0 = 0" and thousand: "double P 1000 = 1000"
    and rnd: "\<forall>j. 0 \<le> rnd j \<and> rnd j < 1"
  shows "(\<forall>j < length (waits (fst (fetchWithRetry P net rnd url options maxRetries))).
            2 ^ j * 1000 \<le> waits (fst (fetchWithRetry P net rnd url options maxRetries)) ! j
          \<and> waits (fst (fetchWithRetry P net rnd url options maxRetries)) ! j
              \<le> double P (2 ^ j * 1000 + 1000))
       \<and> (\<forall>j k. j < k
              \<and> k < length (waits (fst (fetchWithRetry P net rnd url options maxRetries)))
            \<longrightarrow> (2::real) ^ j * 1000 < 2 ^ k * 1000
                \<and> 2 ^ k * 1000
                    \<le> waits (fst (fetchWithRetry P net rnd url options maxRetries)) ! k)
       \<and> (\<forall>i. Suc i < maxRetries \<and> (\<forall>j\<le>i. failed (net j)) \<longrightarrow>
            (\<exists>k>i. fst (fetchWithRetry P net rnd url options maxRetries) =
               concat (map (\<lambda>j. [Fetch url options,
                                  Sleep (double P (double P (double P (2 ^ j) * 1000)
                                                   + double P (rnd j * 1000)))])
                         [0..<k])
               @ [Fetch url options]))
       \<and> (\<forall>j < length (waits (fst (fetchWithRetry_p0 P net url options maxRetries))).
            waits (fst (fetchWithRetry_p0 P net url options maxRetries)) ! j = 2 ^ j * 1000)
       \<and> (\<forall>i. Suc i < maxRetries \<and> (\<forall>j\<le>i. failed (net j)) \<longrightarrow>
            (\<exists>k>i. \<exists>tail. fst (fetchWithRetry_p0 P net url options maxRetries) =
               concat (map (\<lambda>j. [Fetch url options,
                                  ConsoleError (''Attempt '' @ dec (j + 1) @ '' failed:'')
                                    (attempt_error_p0 P net j),
                                  Sleep (double P (double P (2 ^ j) * 1000))])
                         [0..<k])
               @ Fetch url options # tail))"
proof (cases "0 < maxRetries")
  case False
  then have "fst (fetchWithRetry P net rnd url options maxRetries) = []"
    and "fst (fetchWithRetry_p0 P net url options maxRetries) = []"
    by (simp_all add: fetchWithRetry_def fetchWithRetry_p0_def from_done p0_done)
  then show ?thesis using False by simp
next
  case True
  let ?g = "\<lambda>j. double P (double P (double P (2 ^ j) * 1000) + double P (rnd j * 1000))"
  let ?h = "\<lambda>j. double P (double P (2 ^ j) * 1000)"
  let ?t = "fst (fetchWithRetry P net rnd url options maxRetries)"
  let ?tp = "fst (fetchWithRetry_p0 P net url options maxRetries)"
  from from_shape [OF True, of P net rnd url options None]
  obtain k where k: "k < maxRetries"
    "?t = concat (map (\<lambda>j. [Fetch url options, Sleep (?g j)]) [0..<k]) @ [Fetch url options]"
    "k = maxRetries - 1 \<or> (\<exists>r. try_fetch (net k) = Inr r)"
    unfolding fetchWithRetry_def by auto
  have w: "waits ?t = map ?g [0..<k]" unfolding k(2) by (rule waits_shape)
  have lower: "2 ^ j * 1000 \<le> ?g j" and upper: "?g j \<le> double P (2 ^ j * 1000 + 1000)"
    if "j < k" for j
  proof -
    have j: "j < maxRetries" using that k(1) by simp
    then have e: "double P (2 ^ j) = 2 ^ j" "double P (2 ^ j * 1000) = 2 ^ j * 1000"
      using exact by simp_all
    have "0 \<le> rnd j * 1000" and "rnd j * 1000 \<le> 1000" using rnd
      by (simp_all add: less_imp_le)
    then have jit: "0 \<le> double P (rnd j * 1000)" "double P (rnd j * 1000) \<le> 1000"
      using mono zero thousand by metis+
    have "double P (2 ^ j * 1000) \<le> double P (2 ^ j * 1000 + double P (rnd j * 1000))"
      using mono jit(1) by simp
    then show "2 ^ j * 1000 \<le> ?g j" using e by simp
    have "double P (2 ^ j * 1000 + double P (rnd j * 1000)) \<le> double P (2 ^ j * 1000 + 1000)"
      using mono jit(2) by simp
    then show "?g j \<le> double P (2 ^ j * 1000 + 1000)" using e by simp
  qed
  have bounds: "\<forall>j < length (waits ?t). 2 ^ j * 1000 \<le> waits ?t ! j
                  \<and> waits ?t ! j \<le> double P (2 ^ j * 1000 + 1000)"
    using lower upper by (simp add: w)
  have rising: "\<forall>j k. j < k \<and> k < length (waits ?t)
                  \<longrightarrow> (2::real) ^ j * 1000 < 2 ^ k * 1000 \<and> 2 ^ k * 1000 \<le> waits ?t ! k"
    using lower by (simp add: w)
  have present: "\<forall>i. Suc i < maxRetries \<and> (\<forall>j\<le>i. failed (net j)) \<longrightarrow>
      (\<exists>k>i. ?t = concat (map (\<lambda>j. [Fetch url options, Sleep (?g j)]) [0..<k])
                   @ [Fetch url options])"
  proof (intro allI impI)
    fix i assume i: "Suc i < maxRetries \<and> (\<forall>j\<le>i. failed (net j))"
    have "i < k"
    proof (rule ccontr)
      assume "\<not> i < k"
      then have "k \<le> i" by simp
      then have "failed (net k)" using i by simp
      then have "\<nexists>r. try_fetch (net k) = Inr r" by (auto simp: failed_try_fetch)
      then have "k = maxRetries - 1" using k(3) by blast
      then show False using \<open>k \<le> i\<close> i by linarith
    qed
    then show "\<exists>k>i. ?t = concat (map (\<lambda>j. [Fetch url options, Sleep (?g j)]) [0..<k])
                   @ [Fetch url options]"
      using k(2) by blast
  qed
  from p0_shape [OF True, of P net url options None]
  obtain kp tail where kp: "kp < maxRetries"
    "?tp = concat (map (\<lambda>j. [Fetch url options,
                              ConsoleError (''Attempt '' @ dec (j + 1) @ '' failed:'')
                                (attempt_error_p0 P net j),
                              Sleep (?h j)]) [0..<kp])
           @ Fetch url options # tail"
    "waits tail = []"
    "kp = maxRetries - 1 \<or> (\<exists>r. try_fetch_p0 P (net kp) = Inr r)"
    unfolding fetchWithRetry_p0_def by auto
  have wp: "waits ?tp = map ?h [0..<kp]" unfolding kp(2) using kp(3) by (rule waits_shape_p0)
  have exactly: "\<forall>j < length (waits ?tp). waits ?tp ! j = 2 ^ j * 1000"
    using exact kp(1) by (simp add: wp)
  have presentp: "\<forall>i. Suc i < maxRetries \<and> (\<forall>j\<le>i. failed (net j)) \<longrightarrow>
      (\<exists>k>i. \<exists>tail. ?tp = concat (map (\<lambda>j. [Fetch url options,
                              ConsoleError (''Attempt '' @ dec (j + 1) @ '' failed:'')
                                (attempt_error_p0 P net j),
                              Sleep (?h j)]) [0..<k])
           @ Fetch url options # tail)"
  proof (intro allI impI)
    fix i assume i: "Suc i < maxRetries \<and> (\<forall>j\<le>i. failed (net j))"
    have "i < kp"
    proof (rule ccontr)
      assume "\<not> i < kp"
      then have "kp \<le> i" by simp
      then have "failed (net kp)" using i by simp
      then have "\<nexists>r. try_fetch_p0 P (net kp) = Inr r"
        using failed_try_fetch_p0 [of "net kp" P] by auto
      then have "kp = maxRetries - 1" using kp(4) by blast
      then show False using \<open>kp \<le> i\<close> i by linarith
    qed
    then show "\<exists>k>i. \<exists>tail. ?tp = concat (map (\<lambda>j. [Fetch url options,
                              ConsoleError (''Attempt '' @ dec (j + 1) @ '' failed:'')
                                (attempt_error_p0 P net j),
                              Sleep (?h j)]) [0..<k])
           @ Fetch url options # tail"
      using kp(2) by blast
  qed
  show ?thesis using bounds rising present exactly presentp by (intro conjI)
qed


theorem backoff_waits_witness:
  "waits (fst (fetchWithRetry engine (\<lambda>i. Rejects (TypeError ''Failed to fetch''))
        (\<lambda>i. 1 / 2) ''u'' JNull 3)) = [1500, 2500]
   \<and> 2 ^ 1 * 1000 \<le> waits (fst (fetchWithRetry engine
        (\<lambda>i. Rejects (TypeError ''Failed to fetch'')) (\<lambda>i. 1 / 2) ''u'' JNull 3)) ! 1
   \<and> Suc 1 < (3::nat) \<and> failed (Rejects (TypeError ''Failed to fetch''))
   \<and> (\<exists>k>1. \<exists>tail. fst (fetchWithRetry_p0 engine
          (\<lambda>i. Rejects (TypeError ''Failed to fetch'')) ''u'' JNull 3) =
         concat (map (\<lambda>j. [Fetch ''u'' JNull,
                            ConsoleError (''Attempt '' @ dec (j + 1) @ '' failed:'')
                              (attempt_error_p0 engine
                                 (\<lambda>i. Rejects (TypeError ''Failed to fetch'')) j),
                            Sleep (double engine (double engine (2 ^ j) * 1000))])
                   [0..<k])
         @ Fetch ''u'' JNull # tail)"
proof -
  let ?net = "\<lambda>i::nat. Rejects (TypeError ''Failed to fetch'')"
  have mono: "\<forall>x y. x \<le> y \<longrightarrow> double engine x \<le> double engine y" by simp
  have exact: "\<forall>j<3. double engine (2 ^ j) = 2 ^ j
                 \<and> double engine (2 ^ j * 1000) = 2 ^ j * 1000" by simp
  have zero: "double engine 0 = 0" and thousand: "double engine 1000 = 1000" by simp_all
  have rnd: "\<forall>j::nat. (0::real) \<le> 1 / 2 \<and> (1::real) / 2 < 1" by simp
  have f: "failed (Rejects (TypeError ''Failed to fetch''))" by (simp add: failed_def)
  have v: "waits (fst (fetchWithRetry engine ?net (\<lambda>i. 1 / 2) ''u'' JNull 3)) = [1500, 2500]"
    by (simp add: fetchWithRetry_def fetchWithRetry_from.simps try_fetch_def)
  note w = backoff_waits [of engine 3 "\<lambda>i. 1 / 2" ?net "''u''" JNull,
      OF mono exact zero thousand rnd]
  have "\<forall>j < length (waits (fst (fetchWithRetry engine ?net (\<lambda>i. 1 / 2) ''u'' JNull 3))).
          2 ^ j * 1000 \<le> waits (fst (fetchWithRetry engine ?net (\<lambda>i. 1 / 2) ''u'' JNull 3)) ! j
        \<and> waits (fst (fetchWithRetry engine ?net (\<lambda>i. 1 / 2) ''u'' JNull 3)) ! j
            \<le> double engine (2 ^ j * 1000 + 1000)"
    by (rule conjunct1 [OF w])
  then have b: "2 ^ 1 * 1000
      \<le> waits (fst (fetchWithRetry engine ?net (\<lambda>i. 1 / 2) ''u'' JNull 3)) ! 1"
    using v by (elim allE [of _ "1::nat"]) simp
  have "\<forall>i. Suc i < 3 \<and> (\<forall>j\<le>i. failed (?net j)) \<longrightarrow>
      (\<exists>k>i. \<exists>tail. fst (fetchWithRetry_p0 engine ?net ''u'' JNull 3) =
         concat (map (\<lambda>j. [Fetch ''u'' JNull,
                            ConsoleError (''Attempt '' @ dec (j + 1) @ '' failed:'')
                              (attempt_error_p0 engine ?net j),
                            Sleep (double engine (double engine (2 ^ j) * 1000))])
                   [0..<k])
         @ Fetch ''u'' JNull # tail)"
    by (rule conjunct2 [OF conjunct2 [OF conjunct2 [OF conjunct2 [OF w]]]])
  then have p: "\<exists>k>1. \<exists>tail. fst (fetchWithRetry_p0 engine ?net ''u'' JNull 3) =
         concat (map (\<lambda>j. [Fetch ''u'' JNull,
                            ConsoleError (''Attempt '' @ dec (j + 1) @ '' failed:'')
                              (attempt_error_p0 engine ?net j),
                            Sleep (double engine (double engine (2 ^ j) * 1000))])
                   [0..<k])
         @ Fetch ''u'' JNull # tail"
    using f by (elim allE [of _ "1::nat"]) simp
  show ?thesis using v b f p by (intro conjI) simp_all
qed

text \<open>
  C7, as the code has it. For a response that is not ok, part_000 throws an error whose
  message is: the envelope's \<^verbatim>\<open>error.message\<close> (with the status) when the body parses to a
  value other than null that has a truthy one; the generic \<^verbatim>\<open>HTTP error! status: N\<close> when the
  body parses but has none, whatever the body; the body text (with the status) when the
  body does not parse, parses to null or the message cannot be converted, and is not
  empty; the generic message otherwise. chefApp.jsx never reads the body.
\<close>

theorem error_message_priority:
  assumes "\<not> ok r"
  shows "try_fetch_p0 P (Resolves r) = Inl (Error (http_error_message P r))
       \<and> (\<forall>j m text. JSON_parse P (body r) = Inr j \<and> j \<noteq> JNull
              \<and> truthy (get j ''error'') \<and> opt_get (get j ''error'') ''message'' = Some m
              \<and> truthy (Some m) \<and> ToString P m = Inr text
            \<longrightarrow> http_error_message P r
                  = ''API Error: '' @ text @ '' ('' @ dec (status r) @ '')'')
       \<and> (\<forall>j. JSON_parse P (body r) = Inr j \<and> j \<noteq> JNull
              \<and> \<not> (truthy (get j ''error'') \<and> truthy (opt_get (get j ''error'') ''message''))
            \<longrightarrow> http_error_message P r = ''HTTP error! status: '' @ dec (status r))
       \<and> ((\<exists>e. JSON_parse P (body r) = Inl e) \<or> JSON_parse P (body r) = Inr JNull
            \<or> (\<exists>j m e. JSON_parse P (body r) = Inr j \<and> truthy (get j ''error'')
                  \<and> opt_get (get j ''error'') ''message'' = Some m \<and> truthy (Some m)
                  \<and> ToString P m = Inl e)
            \<longrightarrow> http_error_message P r
                  = (if body r \<noteq> []
                     then ''API Error: '' @ body r @ '' ('' @ dec (status r) @ '')''
                     else ''HTTP error! status: '' @ dec (status r)))
       \<and> try_fetch (Resolves r)
           = Inl (Error (if status r = 400 then ''Bad Request: Invalid input to the API.''
                         else ''HTTP error! status: '' @ dec (status r)))"
proof -
  have a: "try_fetch_p0 P (Resolves r) = Inl (Error (http_error_message P r))"
    using assms by (simp add: try_fetch_p0_def)
  have b: "http_error_message P r = ''API Error: '' @ msg @ '' ('' @ dec (status r) @ '')''"
    if "JSON_parse P (body r) = Inr j" "j \<noteq> JNull" "truthy (get j ''error'')"
      "opt_get (get j ''error'') ''message'' = Some m" "truthy (Some m)" "ToString P m = Inr msg"
    for j m msg
    using that by (cases j) (simp_all add: http_error_message_def Let_def)
  have c: "http_error_message P r = ''HTTP error! status: '' @ dec (status r)"
    if "JSON_parse P (body r) = Inr j" "j \<noteq> JNull"
      "\<not> (truthy (get j ''error'') \<and> truthy (opt_get (get j ''error'') ''message''))"
    for j
    using that by (cases j) (auto simp: http_error_message_def Let_def)
  have d1: "http_error_message P r
          = (if body r \<noteq> [] then ''API Error: '' @ body r @ '' ('' @ dec (status r) @ '')''
             else ''HTTP error! status: '' @ dec (status r))"
    if "JSON_parse P (body r) = Inl e" for e
    using that by (simp add: http_error_message_def Let_def)
  have d2: "http_error_message P r
          = (if body r \<noteq> [] then ''API Error: '' @ body r @ '' ('' @ dec (status r) @ '')''
             else ''HTTP error! status: '' @ dec (status r))"
    if "JSON_parse P (body r) = Inr JNull"
    using that by (simp add: http_error_message_def Let_def)
  have d3: "http_error_message P r
          = (if body r \<noteq> [] then ''API Error: '' @ body r @ '' ('' @ dec (status r) @ '')''
             else ''HTTP error! status: '' @ dec (status r))"
    if "JSON_parse P (body r) = Inr j" "truthy (get j ''error'')"
      "opt_get (get j ''error'') ''message'' = Some m" "truthy (Some m)" "ToString P m = Inl e"
    for j m e
    using that by (cases j) (simp_all add: http_error_message_def Let_def)
  have e: "try_fetch (Resolves r)
           = Inl (Error (if status r = 400 then ''Bad Request: Invalid input to the API.''
                         else ''HTTP error! status: '' @ dec (status r)))"
    using assms by (simp add: try_fetch_def)
  show ?thesis using a b c d1 d2 d3 e by blast
qed

theorem error_message_priority_witness:
  "http_error_message engine \<lparr>status = 429, body = sample_error_body\<rparr>
     = ''API Error: Quota exceeded (429)''
   \<and> http_error_message engine \<lparr>status = 502, body = ''Bad Gateway''\<rparr>
     = ''API Error: Bad Gateway (502)''
   \<and> http_error_message engine \<lparr>status = 503, body = []\<rparr> = ''HTTP error! status: 503''
   \<and> http_error_message engine \<lparr>status = 500, body = ''{}''\<rparr> = ''HTTP error! status: 500''"
proof -
  have p1: "JSON_parse engine sample_error_body
              = Inr (JObj [(''error'', JObj [(''message'', JStr ''Quota exceeded'')])])"
    by (simp add: sample_texts)
  have p2: "JSON_parse engine ''Bad Gateway'' = Inl (SyntaxError ''Unexpected end of JSON input'')"
    by (simp add: sample_texts)
  have p3: "JSON_parse engine [] = Inl (SyntaxError ''Unexpected end of JSON input'')"
    by (simp add: sample_texts)
  have p4: "JSON_parse engine ''{}'' = Inr (JObj [])"
    by (simp add: engine_def)
  have n1: "\<not> ok \<lparr>status = 429, body = sample_error_body\<rparr>"
    and n2: "\<not> ok \<lparr>status = 502, body = ''Bad Gateway''\<rparr>"
    and n3: "\<not> ok \<lparr>status = 503, body = []\<rparr>"
    and n4: "\<not> ok \<lparr>status = 500, body = ''{}''\<rparr>"
    by (simp_all add: ok_def)
  have "http_error_message engine \<lparr>status = 429, body = sample_error_body\<rparr>
     = ''API Error: Quota exceeded (429)''"
    using error_message_priority [OF n1, of engine] p1 by (simp add: dec.simps)
  moreover have "http_error_message engine \<lparr>status = 502, body = ''Bad Gateway''\<rparr>
     = ''API Error: Bad Gateway (502)''"
    using error_message_priority [OF n2, of engine] p2 by (simp add: dec.simps)
  moreover have "http_error_message engine \<lparr>status = 503, body = []\<rparr>
     = ''HTTP error! status: 503''"
    using error_message_priority [OF n3, of engine] p3 by (simp add: dec.simps)
  moreover have "http_error_message engine \<lparr>status = 500, body = ''{}''\<rparr>
     = ''HTTP error! status: 500''"
    using error_message_priority [OF n4, of engine] p4 by (simp add: dec.simps)
  ultimately show ?thesis by (intro conjI)
qed

text \<open>
  The priority order of the specification fails on a body that is JSON without an error
  message: the text \<^verbatim>\<open>{}\<close> is not empty, and the message is the generic one.
\<close>

theorem error_message_priority_counterexample:
  "body \<lparr>status = 500, body = ''{}''\<rparr> \<noteq> []
   \<and> JSON_parse engine (body \<lparr>status = 500, body = ''{}''\<rparr>) = Inr (JObj [])
   \<and> try_fetch_p0 engine (Resolves \<lparr>status = 500, body = ''{}''\<rparr>)
       = Inl (Error ''HTTP error! status: 500'')"
  by (simp add: try_fetch_p0_def http_error_message_def engine_def ok_def dec.simps)

section \<open>The prompt\<close>

text \<open>
  C6. The prompt is the fixed lines with three texts put in after the labels of the
  optional fields; none of the three is ever empty, and each is the default phrase of its
  field when the field is the empty string.
\<close>

theorem default_phrases:
  "\<exists>main avoid style.
     userQuery a =
       ''Generate a single, unique food recipe based on the following strict criteria:''
       @ [CHR 0x0A] @ ''- Main Ingredients: '' @ main
       @ [CHR 0x0A] @ ''- Dietary Type: ''
       @ (if diet a = ''veg'' then ''Strictly Vegetarian'' else ''Non-Vegetarian'')
       @ [CHR 0x0A] @ ''- Cooking Fat: Use '' @ fatType a @ '' exclusively.''
       @ [CHR 0x0A] @ ''- Allergies to Avoid: '' @ avoid
       @ [CHR 0x0A] @ ''- Special Request/Style: '' @ style
       @ [CHR 0x0A] @ ''The entire response MUST be a single JSON object conforming to the provided schema. DO NOT include any text outside the JSON structure.''
     \<and> main \<noteq> [] \<and> avoid \<noteq> [] \<and> style \<noteq> []
     \<and> (ingredients a = [] \<longrightarrow> main = ''I have no specific ingredients, be creative.'')
     \<and> (allergies a = [] \<longrightarrow> avoid = ''None, ensure safety.'')
     \<and> (specialRequest a = [] \<longrightarrow> style = ''Make it simple and delicious.'')"
  by (intro exI [of _ "or_default (ingredients a) ''I have no specific ingredients, be creative.''"]
            exI [of _ "or_default (allergies a) ''None, ensure safety.''"]
            exI [of _ "or_default (specialRequest a) ''Make it simple and delicious.''"])
     (simp add: userQuery_def or_default_def)

theorem default_phrases_witness:
  "userQuery (answers initial) =
       ''Generate a single, unique food recipe based on the following strict criteria:''
       @ [CHR 0x0A] @ ''- Main Ingredients: I have no specific ingredients, be creative.''
       @ [CHR 0x0A] @ ''- Dietary Type: Strictly Vegetarian''
       @ [CHR 0x0A] @ ''- Cooking Fat: Use oil exclusively.''
       @ [CHR 0x0A] @ ''- Allergies to Avoid: None, ensure safety.''
       @ [CHR 0x0A] @ ''- Special Request/Style: Make it simple and delicious.''
       @ [CHR 0x0A] @ ''The entire response MUST be a single JSON object conforming to the provided schema. DO NOT include any text outside the JSON structure.''"
proof -
  obtain main avoid style where q: "userQuery (answers initial) =
       ''Generate a single, unique food recipe based on the following strict criteria:''
       @ [CHR 0x0A] @ ''- Main Ingredients: '' @ main
       @ [CHR 0x0A] @ ''- Dietary Type: ''
       @ (if diet (answers initial) = ''veg'' then ''Strictly Vegetarian'' else ''Non-Vegetarian'')
       @ [CHR 0x0A] @ ''- Cooking Fat: Use '' @ fatType (answers initial) @ '' exclusively.''
       @ [CHR 0x0A] @ ''- Allergies to Avoid: '' @ avoid
       @ [CHR 0x0A] @ ''- Special Request/Style: '' @ style
       @ [CHR 0x0A] @ ''The entire response MUST be a single JSON object conforming to the provided schema. DO NOT include any text outside the JSON structure.''"
    and d: "ingredients (answers initial) = [] \<longrightarrow> main = ''I have no specific ingredients, be creative.''"
      "allergies (answers initial) = [] \<longrightarrow> avoid = ''None, ensure safety.''"
      "specialRequest (answers initial) = [] \<longrightarrow> style = ''Make it simple and delicious.''"
    using default_phrases [of "answers initial"] by auto
  have "main = ''I have no specific ingredients, be creative.''"
    and "avoid = ''None, ensure safety.''" and "style = ''Make it simple and delicious.''"
    using d by (simp_all add: initial_def)
  then show ?thesis unfolding q by (simp add: initial_def)
qed

section \<open>Reading the response\<close>

text \<open>
  C3, as the code has it. A parsed payload is accepted only if it is not null, its
  \<^verbatim>\<open>recipeName\<close> is truthy and its \<^verbatim>\<open>ingredients\<close> is an array, and every payload that
  misses one of these is refused; an accepted payload is an object and is handed on
  unchanged, and nothing else reaches \<^verbatim>\<open>setRecipe\<close>. A payload that meets the three and
  whose \<^verbatim>\<open>instructions\<close> is a non-empty sequence of strings is accepted, whatever its
  \<^verbatim>\<open>ingredients\<close> hold and whatever its \<^verbatim>\<open>prepTimeMinutes\<close> is. Nothing is said here of a
  payload whose \<^verbatim>\<open>instructions\<close> is not such a sequence.
\<close>

theorem core_fields_only:
  "(\<forall>q. check_recipe P p = Inr q \<longrightarrow>
        q = p \<and> (\<exists>kvs. p = JObj kvs) \<and> truthy (get p ''recipeName'')
        \<and> isArray (get p ''ingredients''))
   \<and> (p = JNull \<or> \<not> truthy (get p ''recipeName'') \<or> \<not> isArray (get p ''ingredients'')
        \<longrightarrow> (\<exists>e. check_recipe P p = Inl e))
   \<and> (string_sequence (get p ''instructions'') \<and> truthy (get p ''recipeName'')
        \<and> isArray (get p ''ingredients'')
        \<longrightarrow> check_recipe P p = Inr p)
   \<and> (\<forall>q. outcome_of P sent = Inr q \<longrightarrow>
          truthy (get q ''recipeName'') \<and> isArray (get q ''ingredients''))"
proof -
  have obj: "\<exists>kvs. p = JObj kvs" if "truthy (get p ''recipeName'')"
    using that by (cases p) simp_all
  have a: "\<forall>q. check_recipe P p = Inr q \<longrightarrow>
        q = p \<and> (\<exists>kvs. p = JObj kvs) \<and> truthy (get p ''recipeName'')
        \<and> isArray (get p ''ingredients'')"
    using obj by (auto simp: check_recipe_Inr)
  have b: "p = JNull \<or> \<not> truthy (get p ''recipeName'') \<or> \<not> isArray (get p ''ingredients'')
        \<longrightarrow> (\<exists>e. check_recipe P p = Inl e)"
    using check_recipe_Inr [of P p] by (cases "check_recipe P p") auto
  have c: "string_sequence (get p ''instructions'') \<and> truthy (get p ''recipeName'')
        \<and> isArray (get p ''ingredients'')
        \<longrightarrow> check_recipe P p = Inr p"
    using obj by (auto simp: check_recipe_Inr)
  have d: "\<forall>q. outcome_of P sent = Inr q \<longrightarrow>
          truthy (get q ''recipeName'') \<and> isArray (get q ''ingredients'')"
    using outcome_of_Inr [of P sent] by blast
  show ?thesis using a b c d by (intro conjI)
qed

theorem core_fields_only_witness:
  "check_recipe engine (JObj [(''recipeName'', JStr ''Soup''),
        (''ingredients'', JArr [JStr ''1 onion'']), (''instructions'', JArr [JStr ''Boil.'']),
        (''prepTimeMinutes'', JNum 20)])
     = Inr (JObj [(''recipeName'', JStr ''Soup''),
        (''ingredients'', JArr [JStr ''1 onion'']), (''instructions'', JArr [JStr ''Boil.'']),
        (''prepTimeMinutes'', JNum 20)])
   \<and> (\<exists>e. check_recipe engine (JObj [(''description'', JStr ''x'')]) = Inl e)"
proof -
  let ?p = "JObj [(''recipeName'', JStr ''Soup''),
        (''ingredients'', JArr [JStr ''1 onion'']), (''instructions'', JArr [JStr ''Boil.'']),
        (''prepTimeMinutes'', JNum 20)]"
  have "check_recipe engine ?p = Inr ?p"
    using core_fields_only [of engine ?p "Inl None"] by simp
  moreover have "\<exists>e. check_recipe engine (JObj [(''description'', JStr ''x'')]) = Inl e"
    using core_fields_only [of engine "JObj [(''description'', JStr ''x'')]" "Inl None"] by simp
  ultimately show ?thesis by (intro conjI)
qed


text \<open>
  The condition of the specification fails where the guard does not look: a payload with
  well-formed \<^verbatim>\<open>instructions\<close>, an empty \<^verbatim>\<open>ingredients\<close> array and no \<^verbatim>\<open>prepTimeMinutes\<close> is
  accepted.
\<close>

theorem core_fields_only_counterexample:
  "check_recipe engine (JObj [(''recipeName'', JStr ''Soup''), (''ingredients'', JArr []),
                             (''instructions'', JArr [JStr ''Boil.''])])
     = Inr (JObj [(''recipeName'', JStr ''Soup''), (''ingredients'', JArr []),
                  (''instructions'', JArr [JStr ''Boil.''])])
   \<and> get (JObj [(''recipeName'', JStr ''Soup''), (''ingredients'', JArr []),
                (''instructions'', JArr [JStr ''Boil.''])]) ''ingredients'' = Some (JArr [])
   \<and> get (JObj [(''recipeName'', JStr ''Soup''), (''ingredients'', JArr []),
                (''instructions'', JArr [JStr ''Boil.''])]) ''prepTimeMinutes'' = None"
  by (simp add: check_recipe_def)

text \<open>
  C8, as the code has it. When the text path of the envelope is absent (or holds a falsy
  value), the guard throws, the \<^verbatim>\<open>try\<close> block ends there, before the text is parsed, and
  the run sets the error slot and no recipe. The code has no class of error for this: for
  an envelope that is not null, what is thrown is an \<^verbatim>\<open>Error\<close> whose message is the envelope's
  own \<^verbatim>\<open>error.message\<close> if that is truthy, and
  \<^verbatim>\<open>Received an empty or malformed response from the AI.\<close> only otherwise.
\<close>

theorem missing_text_fails:
  assumes "\<not> truthy (text_path result)"
  shows "(\<exists>e. extract_text P result = Inl e)
       \<and> (result \<noteq> JNull \<and> \<not> truthy (opt_get (get result ''error'') ''message'')
            \<longrightarrow> extract_text P result
                  = Inl (Error ''Received an empty or malformed response from the AI.''))
       \<and> (\<forall>m msg. result \<noteq> JNull \<and> opt_get (get result ''error'') ''message'' = Some m
              \<and> truthy (Some m) \<and> ToString P m = Inr msg
            \<longrightarrow> extract_text P result = Inl (Error msg))
       \<and> (\<forall>response. JSON_parse P (body response) = Inr result
            \<longrightarrow> (\<exists>e. handle_response P response = Inl e
                   \<and> generateRecipe_finish (outcome_of P (Inr response))
                       = [ConsoleError ''Recipe generation failed:'' (Some e),
                          SetError (Some (''Failed to generate recipe: '' @ message e
                                          @ ''. Please refine your input and try again.'')),
                          SetIsLoading False]))"
proof -
  have a: "\<exists>e. extract_text P result = Inl e"
  proof (cases "result = JNull")
    case True
    then show ?thesis by (simp add: extract_text_def)
  next
    case False
    then show ?thesis using assms by (simp add: extract_text_absent split: sum.splits)
  qed
  have b: "extract_text P result
             = Inl (Error ''Received an empty or malformed response from the AI.'')"
    if "result \<noteq> JNull" "\<not> truthy (opt_get (get result ''error'') ''message'')"
    using that assms by (simp add: extract_text_absent js_or_falsy)
  have c: "extract_text P result = Inl (Error msg)"
    if "result \<noteq> JNull" "opt_get (get result ''error'') ''message'' = Some m"
      "truthy (Some m)" "ToString P m = Inr msg" for m msg
    using that assms by (simp add: extract_text_absent)
  have d: "\<exists>e. handle_response P response = Inl e
            \<and> generateRecipe_finish (outcome_of P (Inr response))
                = [ConsoleError ''Recipe generation failed:'' (Some e),
                   SetError (Some (''Failed to generate recipe: '' @ message e
                                   @ ''. Please refine your input and try again.'')),
                   SetIsLoading False]"
    if "JSON_parse P (body response) = Inr result" for response
  proof -
    from a obtain e where e: "extract_text P result = Inl e" by blast
    then have "handle_response P response = Inl e"
      using that by (simp add: handle_response_def)
    then show ?thesis by (simp add: outcome_of_def generateRecipe_finish_def)
  qed
  show ?thesis using a b c d by blast
qed

theorem missing_text_fails_witness:
  "text_path (JObj []) = None
   \<and> extract_text engine (JObj [])
       = Inl (Error ''Received an empty or malformed response from the AI.'')
   \<and> text_path (JObj [(''candidates'', JArr [])]) = None
   \<and> extract_text engine (JObj [(''candidates'', JArr [])])
       = Inl (Error ''Received an empty or malformed response from the AI.'')
   \<and> handle_response engine \<lparr>status = 200, body = ''{}''\<rparr>
       = Inl (Error ''Received an empty or malformed response from the AI.'')"
proof -
  have t1: "text_path (JObj []) = None" and t2: "text_path (JObj [(''candidates'', JArr [])]) = None"
    by (simp_all add: text_path_def)
  then have f1: "\<not> truthy (text_path (JObj []))"
    and f2: "\<not> truthy (text_path (JObj [(''candidates'', JArr [])]))"
    by simp_all
  have e1: "extract_text engine (JObj [])
       = Inl (Error ''Received an empty or malformed response from the AI.'')"
    using missing_text_fails [OF f1, of engine] by simp
  have e2: "extract_text engine (JObj [(''candidates'', JArr [])])
       = Inl (Error ''Received an empty or malformed response from the AI.'')"
    using missing_text_fails [OF f2, of engine] by simp
  have "JSON_parse engine (body \<lparr>status = 200, body = ''{}''\<rparr>) = Inr (JObj [])"
    by (simp add: engine_def)
  then have "handle_response engine \<lparr>status = 200, body = ''{}''\<rparr>
       = Inl (Error ''Received an empty or malformed response from the AI.'')"
    using e1 by (simp add: handle_response_def)
  then show ?thesis using t1 t2 e1 e2 by (intro conjI)
qed

text \<open>
  An error of the malformed-response kind for every envelope without the text path fails:
  an envelope that carries the provider's error is reported with the provider's message.
\<close>

theorem missing_text_fails_counterexample:
  "text_path (JObj [(''error'', JObj [(''message'', JStr ''Quota exceeded'')])]) = None
   \<and> extract_text engine (JObj [(''error'', JObj [(''message'', JStr ''Quota exceeded'')])])
       = Inl (Error ''Quota exceeded'')
   \<and> handle_response engine \<lparr>status = 200, body = sample_error_body\<rparr>
       = Inl (Error ''Quota exceeded'')"
  by (simp add: text_path_def extract_text_def handle_response_def sample_texts)


section \<open>The component\<close>

text \<open>
  C4, as the code has it. Over every sequence of form events at most one call is in
  flight, and one is in flight exactly while \<^verbatim>\<open>isLoading\<close> is set. The guard is the submit
  button, disabled while loading; \<^verbatim>\<open>generateRecipe\<close> itself has none, and every call of it
  starts a run.
\<close>

theorem single_flight_by_button:
  "in_flight (foldl (ui_step P) mounted es) \<le> 1
   \<and> isLoading (view (foldl (ui_step P) mounted es))
       = (in_flight (foldl (ui_step P) mounted es) = 1)
   \<and> (isLoading (view c) \<longrightarrow> ui_step P c Submit = c)
   \<and> in_flight (generateRecipe_call c) = in_flight c + 1"
  using consistent_reachable [of P es]
  by (auto simp: consistent_def generateRecipe_call_def split: if_splits)

theorem single_flight_by_button_witness:
  "isLoading (view (foldl (ui_step engine) mounted [Submit]))
   \<and> ui_step engine (foldl (ui_step engine) mounted [Submit]) Submit
       = foldl (ui_step engine) mounted [Submit]
   \<and> in_flight (foldl (ui_step engine) mounted [Submit, Submit]) = 1"
proof -
  have l: "isLoading (view (foldl (ui_step engine) mounted [Submit]))"
    by (simp add: mounted_def initial_def generateRecipe_call_def after_start)
  then have s: "ui_step engine (foldl (ui_step engine) mounted [Submit]) Submit
       = foldl (ui_step engine) mounted [Submit]"
    using single_flight_by_button [of engine "[]" "foldl (ui_step engine) mounted [Submit]"]
    by blast
  have "isLoading (view (foldl (ui_step engine) mounted [Submit, Submit]))"
    using l by simp
  then have "in_flight (foldl (ui_step engine) mounted [Submit, Submit]) = 1"
    using single_flight_by_button [of engine "[Submit, Submit]" mounted] by blast
  then show ?thesis using l s by (intro conjI)
qed

text \<open>
  Enforcement inside the controller fails: called while the component is loading,
  \<^verbatim>\<open>generateRecipe\<close> starts a second run.
\<close>

theorem single_flight_by_button_counterexample:
  "isLoading (view (generateRecipe_call mounted))
   \<and> in_flight (generateRecipe_call (generateRecipe_call mounted)) = 2"
  by (simp add: generateRecipe_call_def mounted_def after_start)

text \<open>
  C9, as the code has it. A run of \<^verbatim>\<open>generateRecipe\<close> that no other run overlaps ends, from
  any state, in Success or in Failure; and every state the component reaches through form
  events, where the disabled button keeps runs apart, stands for exactly one request
  state, with the recipe and the error never both set.
\<close>

theorem one_request_state:
  "(\<exists>q e. request_state (after s (generateRecipe P net rnd url s)) = Some (Success q)
         \<or> request_state (after s (generateRecipe P net rnd url s)) = Some (Failure e))
   \<and> (\<exists>q e. request_state (after s (generateRecipe_p0 P net url s)) = Some (Success q)
         \<or> request_state (after s (generateRecipe_p0 P net url s)) = Some (Failure e))
   \<and> request_state (view (foldl (ui_step P) mounted es)) \<noteq> None
   \<and> \<not> (recipe (view (foldl (ui_step P) mounted es)) \<noteq> JNull
        \<and> error (view (foldl (ui_step P) mounted es)) \<noteq> None)"
proof -
  have run: "\<exists>q e. request_state (after s (generateRecipe_start @ fx @ generateRecipe_finish oc))
                     = Some (Success q)
                  \<or> request_state (after s (generateRecipe_start @ fx @ generateRecipe_finish oc))
                     = Some (Failure e)"
    if quiet: "\<forall>e\<in>set fx. \<not> is_setter e" and thrown: "oc \<noteq> Inl None"
      and given: "\<forall>q. oc = Inr q \<longrightarrow> q \<noteq> JNull"
    for fx oc
  proof (cases oc)
    case (Inr q)
    then show ?thesis using given run_succeeded [OF quiet, of s q]
      by (simp add: request_state_def)
  next
    case (Inl t)
    then obtain err where "oc = Inl (Some err)" using thrown by (cases t) simp_all
    then show ?thesis using run_failed [OF quiet, of s err]
      by (simp add: request_state_def)
  qed
  have ok1: "\<forall>q. snd (try_block P net rnd url s) = Inr q \<longrightarrow> q \<noteq> JNull"
    using outcome_of_Inr by (auto simp: try_block_def Let_def)
  have ok2: "\<forall>q. snd (try_block_p0 P net url s) = Inr q \<longrightarrow> q \<noteq> JNull"
    using outcome_of_Inr by (auto simp: try_block_p0_def Let_def)
  have a: "\<exists>q e. request_state (after s (generateRecipe P net rnd url s)) = Some (Success q)
         \<or> request_state (after s (generateRecipe P net rnd url s)) = Some (Failure e)"
    unfolding generateRecipe_def by (rule run [OF try_block_silent try_block_thrown ok1])
  have b: "\<exists>q e. request_state (after s (generateRecipe_p0 P net url s)) = Some (Success q)
         \<or> request_state (after s (generateRecipe_p0 P net url s)) = Some (Failure e)"
    unfolding generateRecipe_p0_def
    by (rule run [OF try_block_p0_silent try_block_p0_thrown ok2])
  have c: "request_state (view (foldl (ui_step P) mounted es)) \<noteq> None"
    by (rule consistent_request_state [OF consistent_reachable])
  have d: "\<not> (recipe (view (foldl (ui_step P) mounted es)) \<noteq> JNull
        \<and> error (view (foldl (ui_step P) mounted es)) \<noteq> None)"
    using consistent_reachable [of P es] by (auto simp: consistent_def)
  show ?thesis using a b c d by (intro conjI)
qed

theorem one_request_state_witness:
  "request_state (after initial
      (generateRecipe engine (\<lambda>i. Rejects (TypeError ''Failed to fetch'')) (\<lambda>i. 0) ''u'' initial))
     = Some (Failure ''Failed to generate recipe: API call failed after 5 attempts: Failed to fetch. Please refine your input and try again.'')
   \<and> request_state (view (foldl (ui_step engine) mounted
         [Submit, Settle (Inl (Some (TypeError ''Failed to fetch''))), Submit])) = Some Loading"
proof -
  have "after initial
      (generateRecipe engine (\<lambda>i. Rejects (TypeError ''Failed to fetch'')) (\<lambda>i. 0) ''u'' initial)
    = initial\<lparr>error := Some ''Failed to generate recipe: API call failed after 5 attempts: Failed to fetch. Please refine your input and try again.'',
        isLoading := False, recipe := JNull\<rparr>"
    unfolding generateRecipe_def
    using run_failed [OF try_block_silent] offline_try_block [of initial] by simp
  then have f: "request_state (after initial
      (generateRecipe engine (\<lambda>i. Rejects (TypeError ''Failed to fetch'')) (\<lambda>i. 0) ''u'' initial))
     = Some (Failure ''Failed to generate recipe: API call failed after 5 attempts: Failed to fetch. Please refine your input and try again.'')"
    by (simp add: request_state_def initial_def)
  have "isLoading (view (foldl (ui_step engine) mounted
         [Submit, Settle (Inl (Some (TypeError ''Failed to fetch''))), Submit]))"
    by (simp add: mounted_def initial_def generateRecipe_call_def generateRecipe_return_def
          generateRecipe_finish_def outcome_of_def after_def generateRecipe_start_def)
  moreover have "request_state (view (foldl (ui_step engine) mounted
         [Submit, Settle (Inl (Some (TypeError ''Failed to fetch''))), Submit])) \<noteq> None"
    using one_request_state [of initial engine "\<lambda>i. Rejects (TypeError ''Failed to fetch'')"
        "\<lambda>i. 0" "''u''" "[Submit, Settle (Inl (Some (TypeError ''Failed to fetch''))), Submit]"]
    by blast
  ultimately have "request_state (view (foldl (ui_step engine) mounted
         [Submit, Settle (Inl (Some (TypeError ''Failed to fetch''))), Submit])) = Some Loading"
    by (auto simp: request_state_def split: if_splits)
  then show ?thesis using f by (intro conjI)
qed

text \<open>
  Without that condition the claim fails: \<^verbatim>\<open>generateRecipe\<close> called twice in a row starts two
  runs, and when one succeeds and the other fails, both slots are set and the state stands
  for no request state.
\<close>

theorem one_request_state_counterexample:
  "recipe (view (generateRecipe_return engine
       (generateRecipe_return engine (generateRecipe_call (generateRecipe_call mounted))
          (Inr \<lparr>status = 200, body = sample_envelope_body\<rparr>))
       (Inl (Some (Error ''API call failed after 5 attempts: Failed to fetch'')))))
     = sample_recipe
   \<and> error (view (generateRecipe_return engine
       (generateRecipe_return engine (generateRecipe_call (generateRecipe_call mounted))
          (Inr \<lparr>status = 200, body = sample_envelope_body\<rparr>))
       (Inl (Some (Error ''API call failed after 5 attempts: Failed to fetch'')))))
     = Some ''Failed to generate recipe: API call failed after 5 attempts: Failed to fetch. Please refine your input and try again.''
   \<and> request_state (view (generateRecipe_return engine
       (generateRecipe_return engine (generateRecipe_call (generateRecipe_call mounted))
          (Inr \<lparr>status = 200, body = sample_envelope_body\<rparr>))
       (Inl (Some (Error ''API call failed after 5 attempts: Failed to fetch'')))))
     = None"
  by (simp add: generateRecipe_return_def generateRecipe_call_def mounted_def after_start
        outcome_of_def handle_sample generateRecipe_finish_def after_def request_state_def
        sample_recipe_def)

text \<open>
  C10. At every network call of a run both slots have been cleared and \<^verbatim>\<open>isLoading\<close> set;
  when the \<^verbatim>\<open>try\<close> block throws, the run ends with the error message set, \<^verbatim>\<open>isLoading\<close> reset
  and the recipe slot null, whatever recipe the state held before.
\<close>

theorem failure_clears_previous_recipe:
  "(\<forall>n < length (generateRecipe P net rnd url s).
       is_Fetch (generateRecipe P net rnd url s ! n) \<longrightarrow>
         after s (take n (generateRecipe P net rnd url s))
           = s\<lparr>error := None, isLoading := True, recipe := JNull\<rparr>)
   \<and> (\<forall>err. snd (try_block P net rnd url s) = Inl (Some err) \<longrightarrow>
         after s (generateRecipe P net rnd url s)
           = s\<lparr>error := Some (''Failed to generate recipe: '' @ message err
                              @ ''. Please refine your input and try again.''),
                isLoading := False, recipe := JNull\<rparr>)
   \<and> (\<forall>n < length (generateRecipe_p0 P net url s).
       is_Fetch (generateRecipe_p0 P net url s ! n) \<longrightarrow>
         after s (take n (generateRecipe_p0 P net url s))
           = s\<lparr>error := None, isLoading := True, recipe := JNull\<rparr>)
   \<and> (\<forall>err. snd (try_block_p0 P net url s) = Inl (Some err) \<longrightarrow>
         after s (generateRecipe_p0 P net url s)
           = s\<lparr>error := Some (''Failed to generate recipe: '' @ message err
                              @ ''. Please refine your input and try again.''),
                isLoading := False, recipe := JNull\<rparr>)"
proof -
  have a: "\<forall>n < length (generateRecipe P net rnd url s).
       is_Fetch (generateRecipe P net rnd url s ! n) \<longrightarrow>
         after s (take n (generateRecipe P net rnd url s))
           = s\<lparr>error := None, isLoading := True, recipe := JNull\<rparr>"
    unfolding generateRecipe_def using run_at_call [OF try_block_silent] by blast
  have b: "\<forall>err. snd (try_block P net rnd url s) = Inl (Some err) \<longrightarrow>
         after s (generateRecipe P net rnd url s)
           = s\<lparr>error := Some (''Failed to generate recipe: '' @ message err
                              @ ''. Please refine your input and try again.''),
                isLoading := False, recipe := JNull\<rparr>"
    unfolding generateRecipe_def using run_failed [OF try_block_silent] by simp
  have c: "\<forall>n < length (generateRecipe_p0 P net url s).
       is_Fetch (generateRecipe_p0 P net url s ! n) \<longrightarrow>
         after s (take n (generateRecipe_p0 P net url s))
           = s\<lparr>error := None, isLoading := True, recipe := JNull\<rparr>"
    unfolding generateRecipe_p0_def using run_at_call [OF try_block_p0_silent] by blast
  have d: "\<forall>err. snd (try_block_p0 P net url s) = Inl (Some err) \<longrightarrow>
         after s (generateRecipe_p0 P net url s)
           = s\<lparr>error := Some (''Failed to generate recipe: '' @ message err
                              @ ''. Please refine your input and try again.''),
                isLoading := False, recipe := JNull\<rparr>"
    unfolding generateRecipe_p0_def using run_failed [OF try_block_p0_silent] by simp
  show ?thesis using a b c d by (intro conjI)
qed

theorem failure_clears_previous_recipe_witness:
  "after (initial\<lparr>recipe := JObj [(''recipeName'', JStr ''Soup''), (''ingredients'', JArr [])]\<rparr>)
     (generateRecipe engine (\<lambda>i. Rejects (TypeError ''Failed to fetch'')) (\<lambda>i. 0) ''u''
        (initial\<lparr>recipe := JObj [(''recipeName'', JStr ''Soup''), (''ingredients'', JArr [])]\<rparr>))
   = initial\<lparr>error := Some ''Failed to generate recipe: API call failed after 5 attempts: Failed to fetch. Please refine your input and try again.''\<rparr>
   \<and> is_Fetch (generateRecipe engine (\<lambda>i. Rejects (TypeError ''Failed to fetch'')) (\<lambda>i. 0) ''u''
        (initial\<lparr>recipe := JObj [(''recipeName'', JStr ''Soup''), (''ingredients'', JArr [])]\<rparr>)
        ! 3)
   \<and> after (initial\<lparr>recipe := JObj [(''recipeName'', JStr ''Soup''), (''ingredients'', JArr [])]\<rparr>)
       (take 3 (generateRecipe engine (\<lambda>i. Rejects (TypeError ''Failed to fetch'')) (\<lambda>i. 0) ''u''
          (initial\<lparr>recipe := JObj [(''recipeName'', JStr ''Soup''), (''ingredients'', JArr [])]\<rparr>)))
     = initial\<lparr>isLoading := True\<rparr>"
proof -
  let ?s = "initial\<lparr>recipe := JObj [(''recipeName'', JStr ''Soup''), (''ingredients'', JArr [])]\<rparr>"
  let ?t = "generateRecipe engine (\<lambda>i. Rejects (TypeError ''Failed to fetch'')) (\<lambda>i. 0) ''u'' ?s"
  note run = failure_clears_previous_recipe [of engine
        "\<lambda>i. Rejects (TypeError ''Failed to fetch'')" "\<lambda>i. 0" "''u''" ?s]
  have "after ?s ?t
        = ?s\<lparr>error := Some (''Failed to generate recipe: ''
                  @ message (Error ''API call failed after 5 attempts: Failed to fetch'')
                  @ ''. Please refine your input and try again.''),
              isLoading := False, recipe := JNull\<rparr>"
    using run offline_try_block [of ?s] by blast
  then have a: "after ?s ?t = initial\<lparr>error := Some ''Failed to generate recipe: API call failed after 5 attempts: Failed to fetch. Please refine your input and try again.''\<rparr>"
    by (simp add: initial_def)
  obtain rest where rest: "fst (try_block engine (\<lambda>i. Rejects (TypeError ''Failed to fetch''))
        (\<lambda>i. 0) ''u'' ?s) = Fetch ''u'' (request_options engine (answers ?s)) # rest"
    using from_starts_with_call [of 0 5 engine "\<lambda>i. Rejects (TypeError ''Failed to fetch'')"
        "\<lambda>i. 0" "''u''" "request_options engine (answers ?s)" None]
    by (auto simp: try_block_def Let_def fetchWithRetry_def)
  have b: "is_Fetch (?t ! 3)" and n: "3 < length ?t"
    by (simp_all add: generateRecipe_def generateRecipe_start_def rest)
  have "after ?s (take 3 ?t) = ?s\<lparr>error := None, isLoading := True, recipe := JNull\<rparr>"
    using run b n by blast
  then have c: "after ?s (take 3 ?t) = initial\<lparr>isLoading := True\<rparr>"
    by (simp add: initial_def)
  show ?thesis using a b c by (intro conjI)
qed

end
